theory Spec2Isabelle
  imports Complex_Main
begin

section \<open>Values, errors and configuration\<close>

text \<open>
  The model follows \<^verbatim>\<open>src/geo/geo.py\<close>. Python strings are lists of characters, one
  \<^typ>\<open>char\<close> per code point below 256. A Python float is modelled by its value in \<^typ>\<open>real\<close>;
  the arithmetic of the closeness test rounds to binary64. Infinite and NaN inputs are
  outside the model.
\<close>

text \<open>The scalar values a provider response may hold under a key.\<close>

datatype pyval = VNone | VBool bool | VInt int | VFloat real | VStr string

text \<open>Python truthiness, as tested by \<^verbatim>\<open>if x and y\<close>.\<close>

fun truthy :: "pyval \<Rightarrow> bool" where
  "truthy VNone = False"
| "truthy (VBool b) = b"
| "truthy (VInt i) = (i \<noteq> 0)"
| "truthy (VFloat r) = (r \<noteq> 0)"
| "truthy (VStr s) = (s \<noteq> [])"

text \<open>\<^verbatim>\<open>Point = namedtuple('Point', ('address', 'x', 'y'))\<close>\<close>

datatype point = Point (p_address: string) (p_x: real) (p_y: real)

text \<open>
  Every exception the modelled code can raise:
  \<^item> \<open>ValueError_Float s\<close>: \<^verbatim>\<open>float(s)\<close> on a string that is no number;
  \<^item> \<open>TypeError_Float\<close>: \<^verbatim>\<open>float(None)\<close>;
  \<^item> \<open>ValueError_Tolerance\<close>: \<^verbatim>\<open>isclose\<close> called with a negative tolerance;
  \<^item> \<open>ValueError_NotEqual pw po\<close>: the \<^verbatim>\<open>raise ValueError(f'Values in the fields are not
    equal: WKT={wkt}\tOSM={osm}')\<close> of \<^verbatim>\<open>__get_lat_and_lng\<close>;
  \<^item> \<open>AttributeError n\<close>: attribute \<open>n\<close> does not exist;
  \<^item> \<open>TypeError_Index\<close>: pandas refuses a string as the collection of column labels.
\<close>

datatype error =
    ValueError_Float string
  | TypeError_Float
  | ValueError_Tolerance
  | ValueError_NotEqual point point
  | AttributeError string
  | TypeError_Index

text \<open>
  The two warnings of the module:
  \<^verbatim>\<open>Could not get any data via method '{method_name}'.\<close> and
  \<^verbatim>\<open>Method "{method_name}" not found in "methods_confidence_map".\<close>
\<close>

datatype warning = CouldNotGetData string | MethodNotFound string

text \<open>The two slots of \<^verbatim>\<open>Geo\<close>.\<close>

record geo =
  allowed_methods :: "string list"
  rel_tol :: real

definition default_allowed_methods :: "string list" where
  "default_allowed_methods =
     [''arcgis'', ''baidu'', ''bing'', ''gaode'', ''geocodefarm'', ''geolytica'',
      ''geonames'', ''ottawa'', ''google'', ''here'', ''locationiq'', ''mapbox'',
      ''mapquest'', ''opencage'', ''osm'', ''tamu'', ''tomtom'', ''w3w'', ''yahoo'',
      ''yandex'', ''tgos'']"

definition default_rel_tol :: real where
  "default_rel_tol = 1 / 10 ^ 9"

text \<open>
  \<^verbatim>\<open>Geo.__init__\<close>: two assignments and nothing else. The result type has an error
  side so that a failing construction could be expressed; no branch of the body raises.
\<close>

definition init :: "string list \<Rightarrow> real \<Rightarrow> error + geo" where
  "init allowed rt = Inr \<lparr>allowed_methods = allowed, rel_tol = rt\<rparr>"

section \<open>The WKT pattern\<close>

text \<open>
  \<^verbatim>\<open>str.isspace\<close> on code points below 256, which is what \<^verbatim>\<open>\s\<close> matches in a
  \<^verbatim>\<open>str\<close> pattern: tab to carriage return, the four separators 28 to 31, the
  space, NEL and the no-break space.
\<close>

definition isspace :: "char \<Rightarrow> bool" where
  "isspace c = (let n = (of_char c :: nat) in
      (9 \<le> n \<and> n \<le> 13) \<or> (28 \<le> n \<and> n \<le> 32) \<or> n = 133 \<or> n = 160)"

datatype cls = NonSpace | Space

fun in_cls :: "cls \<Rightarrow> char \<Rightarrow> bool" where
  "in_cls NonSpace c = (\<not> isspace c)"
| "in_cls Space c = isspace c"

text \<open>
  The pieces the pattern is made of: a literal, a greedy \<^verbatim>\<open>c+\<close> and a named group
  \<^verbatim>\<open>(?P<n>c+)\<close>.
\<close>

datatype item = Lit string | Plus cls | NamedPlus string cls

fun first_some :: "'a option list \<Rightarrow> 'a option" where
  "first_some [] = None"
| "first_some (None # r) = first_some r"
| "first_some (Some v # r) = Some v"

text \<open>
  A backtracking matcher anchored at the start of the subject. A greedy repetition tries
  the longest run first and gives characters back one at a time. The empty pattern is the
  final \<^verbatim>\<open>$\<close>, which matches at the end of the subject and before a newline that ends it.
  The result is the \<^verbatim>\<open>groupdict()\<close> of the match.
\<close>

fun match_here :: "item list \<Rightarrow> string \<Rightarrow> (string \<times> pyval) list \<Rightarrow> (string \<times> pyval) list option" where
  "match_here [] s caps = (if s = [] \<or> s = [CHR 0x0A] then Some caps else None)"
| "match_here (Lit l # r) s caps =
     (if take (length l) s = l then match_here r (drop (length l) s) caps else None)"
| "match_here (Plus c # r) s caps =
     first_some (map (\<lambda>n. match_here r (drop n s) caps)
                     (rev [1 ..< Suc (length (takeWhile (in_cls c) s))]))"
| "match_here (NamedPlus g c # r) s caps =
     first_some (map (\<lambda>n. match_here r (drop n s) (caps @ [(g, VStr (take n s))]))
                     (rev [1 ..< Suc (length (takeWhile (in_cls c) s))]))"

text \<open>\<^verbatim>\<open>re.compile(r'^POINT\((?P<x>\S+)\s+(?P<y>\S+)\)$')\<close>\<close>

definition wkt_pattern :: "item list" where
  "wkt_pattern = [Lit ''POINT('', NamedPlus ''x'' NonSpace, Plus Space, NamedPlus ''y'' NonSpace, Lit '')'']"

text \<open>
  \<^verbatim>\<open>__parse_wtk\<close>: with the leading \<^verbatim>\<open>^\<close>, \<^verbatim>\<open>search\<close> can only match at position 0.
\<close>

definition parse_wtk :: "string \<Rightarrow> (string \<times> pyval) list option" where
  "parse_wtk in_str = match_here wkt_pattern in_str []"

section \<open>Conversion to float\<close>

text \<open>
  Python's \<^verbatim>\<open>float\<close> on a string is a parameter \<open>fl\<close> of the model: \<open>fl s = None\<close>
  stands for \<^verbatim>\<open>ValueError\<close>. \<open>py_float\<close> is its fragment of plain decimal literals
  (an optional sign, digits, an optional fraction) and is used for concrete inputs only;
  exponents, \<^verbatim>\<open>inf\<close>, \<^verbatim>\<open>nan\<close> and digit separators are not covered by it.
\<close>

definition digit_of :: "char \<Rightarrow> nat option" where
  "digit_of c = (let n = (of_char c :: nat) in if 48 \<le> n \<and> n \<le> 57 then Some (n - 48) else None)"

fun digits_val :: "string \<Rightarrow> nat \<Rightarrow> nat option" where
  "digits_val [] acc = Some acc"
| "digits_val (c # cs) acc =
     (case digit_of c of None \<Rightarrow> None | Some d \<Rightarrow> digits_val cs (10 * acc + d))"

definition unsigned_float :: "string \<Rightarrow> real option" where
  "unsigned_float s =
     (let ip = takeWhile (\<lambda>c. c \<noteq> CHR ''.'') s;
          fp = drop 1 (dropWhile (\<lambda>c. c \<noteq> CHR ''.'') s)
      in if ip = [] \<and> fp = [] then None
         else (case digits_val ip 0 of None \<Rightarrow> None
               | Some i \<Rightarrow> (case digits_val fp 0 of None \<Rightarrow> None
                   | Some f \<Rightarrow> Some (real i + real f / 10 ^ length fp))))"

definition py_float :: "string \<Rightarrow> real option" where
  "py_float s =
     (case s of [] \<Rightarrow> None
      | c # r \<Rightarrow> if c = CHR ''-'' then map_option uminus (unsigned_float r)
                 else if c = CHR ''+'' then unsigned_float r
                 else unsigned_float s)"

text \<open>\<^verbatim>\<open>float(v)\<close> on a value.\<close>

fun to_float :: "(string \<Rightarrow> real option) \<Rightarrow> pyval \<Rightarrow> error + real" where
  "to_float fl VNone = Inl TypeError_Float"
| "to_float fl (VBool b) = Inr (if b then 1 else 0)"
| "to_float fl (VInt i) = Inr (real_of_int i)"
| "to_float fl (VFloat r) = Inr r"
| "to_float fl (VStr s) = (case fl s of None \<Rightarrow> Inl (ValueError_Float s) | Some r \<Rightarrow> Inr r)"

section \<open>Candidate extraction\<close>

text \<open>
  A provider response. Reading an attribute either raises \<^verbatim>\<open>AttributeError\<close>
  (\<open>NoAttr\<close>) or gives a value: for \<^verbatim>\<open>wkt\<close> a string or \<^verbatim>\<open>None\<close>, for \<^verbatim>\<open>osm\<close>
  a dictionary (an association list, read by \<^const>\<open>map_of\<close>) or \<^verbatim>\<open>None\<close>.
\<close>

datatype 'a attr = NoAttr | Attr 'a

record response =
  wkt :: "string option attr"
  osm :: "(string \<times> pyval) list option attr"

text \<open>\<^verbatim>\<open>d.get(k, None)\<close>\<close>

definition dict_get :: "(string \<times> pyval) list \<Rightarrow> string \<Rightarrow> pyval" where
  "dict_get d k = (case map_of d k of None \<Rightarrow> VNone | Some v \<Rightarrow> v)"

text \<open>
  The shared tail of both extractors:
  \<^verbatim>\<open>x, y = d.get('x', None), d.get('y', None)\<close>, then
  \<^verbatim>\<open>if x and y: result = self.Point(address, float(x), float(y))\<close>.
  The conversions are outside every \<^verbatim>\<open>try\<close>, so their errors leave the function.
\<close>

definition point_of_dict :: "(string \<Rightarrow> real option) \<Rightarrow> string \<Rightarrow> (string \<times> pyval) list \<Rightarrow> error + point option" where
  "point_of_dict fl addr d =
     (let vx = dict_get d ''x''; vy = dict_get d ''y''
      in if truthy vx \<and> truthy vy
         then (case to_float fl vx of Inl e \<Rightarrow> Inl e
               | Inr fx \<Rightarrow> (case to_float fl vy of Inl e \<Rightarrow> Inl e
                   | Inr fy \<Rightarrow> Inr (Some (Point addr fx fy))))
         else Inr None)"

text \<open>\<^verbatim>\<open>__get_wkt\<close>\<close>

definition get_wkt :: "(string \<Rightarrow> real option) \<Rightarrow> string \<Rightarrow> response \<Rightarrow> error + point option" where
  "get_wkt fl addr query_result =
     (case wkt query_result of
        NoAttr \<Rightarrow> Inr None
      | Attr v \<Rightarrow>
          (case (case v of None \<Rightarrow> None
                 | Some s \<Rightarrow> if s \<noteq> [] then parse_wtk s else None) of
             None \<Rightarrow> Inr None
           | Some d \<Rightarrow> if d \<noteq> [] then point_of_dict fl addr d else Inr None))"

text \<open>\<^verbatim>\<open>__get_osm\<close>\<close>

definition get_osm :: "(string \<Rightarrow> real option) \<Rightarrow> string \<Rightarrow> response \<Rightarrow> error + point option" where
  "get_osm fl addr query_result =
     (case osm query_result of
        NoAttr \<Rightarrow> Inr None
      | Attr v \<Rightarrow>
          (case v of
             None \<Rightarrow> Inr None
           | Some d \<Rightarrow> if d \<noteq> [] then point_of_dict fl addr d else Inr None))"

section \<open>Reconciliation\<close>

text \<open>
  The arithmetic of binary64, round to nearest, ties to even. \<open>round_even\<close> rounds to
  an integer. \<open>binade m\<close> is the exponent \<open>e\<close> of the format for a magnitude \<open>m\<close>:
  the least \<open>e\<close> from \<open>-1022\<close> (normal and subnormal numbers share it) with
  \<open>m < 2\<^sup>e\<^sup>+\<^sup>1\<close>, at most \<open>1023\<close>. A magnitude is rounded to a multiple of
  \<open>2\<^sup>e\<^sup>-\<^sup>5\<^sup>2\<close>; a result of \<open>2\<^sup>1\<^sup>0\<^sup>2\<^sup>4\<close> or more is the overflow to infinity,
  for which \<open>2\<^sup>1\<^sup>0\<^sup>2\<^sup>4\<close> stands (it is above every finite number, and only
  comparisons are made with it).
\<close>

definition round_even :: "real \<Rightarrow> int" where
  "round_even v =
     (let f = \<lfloor>v\<rfloor>; d = v - of_int f
      in if d < 1 / 2 then f else if 1 / 2 < d then f + 1 else if even f then f else f + 1)"

function binade_from :: "int \<Rightarrow> real \<Rightarrow> int" where
  "binade_from e m = (if 1023 \<le> e \<or> m < 2 powi (e + 1) then e else binade_from (e + 1) m)"
  by pat_completeness auto
termination
  by (relation "measure (\<lambda>(e, m). nat (1023 - e))") auto

declare binade_from.simps [simp del]

definition binade :: "real \<Rightarrow> int" where
  "binade m = binade_from (- 1022) m"

definition round_mag :: "real \<Rightarrow> real" where
  "round_mag m =
     (let u = 2 powi (binade m - 52)
      in min (2 powi 1024) (u * of_int (round_even (m / u))))"

definition round_double :: "real \<Rightarrow> real" where
  "round_double v = sgn v * round_mag \<bar>v\<bar>"

text \<open>
  \<^verbatim>\<open>cmath.isclose(a, b, rel_tol=..., abs_tol=...)\<close> on finite values: a negative
  tolerance is a \<^verbatim>\<open>ValueError\<close>; equal values are close; otherwise the rounded
  difference is compared with the rounded product of the tolerance and either argument,
  and with the absolute tolerance.
\<close>

definition isclose :: "real \<Rightarrow> real \<Rightarrow> real \<Rightarrow> real \<Rightarrow> error + bool" where
  "isclose a b rt abs_tol =
     (if rt < 0 \<or> abs_tol < 0 then Inl ValueError_Tolerance
      else if a = b then Inr True
      else (let diff = \<bar>round_double (a - b)\<bar>
            in Inr (diff \<le> round_double (rt * \<bar>b\<bar>) \<or> diff \<le> round_double (rt * \<bar>a\<bar>)
                    \<or> diff \<le> abs_tol)))"

text \<open>
  \<^verbatim>\<open>__get_lat_and_lng\<close>. A \<^verbatim>\<open>Point\<close> is a tuple of three fields and therefore
  truthy, so \<^verbatim>\<open>wkt and osm\<close> tests that both are present and \<^verbatim>\<open>wkt or osm\<close>
  picks the first that is. The \<^verbatim>\<open>and\<close> between the two closeness tests does not
  evaluate the second one when the first is false.
\<close>

definition get_lat_and_lng :: "(string \<Rightarrow> real option) \<Rightarrow> geo \<Rightarrow> string \<Rightarrow> response \<Rightarrow> error + point option" where
  "get_lat_and_lng fl g addr query_result =
     (case get_wkt fl addr query_result of Inl e \<Rightarrow> Inl e
      | Inr w_opt \<Rightarrow>
     (case get_osm fl addr query_result of Inl e \<Rightarrow> Inl e
      | Inr o_opt \<Rightarrow>
     (case w_opt of
        None \<Rightarrow> Inr o_opt
      | Some pw \<Rightarrow>
          (case o_opt of
             None \<Rightarrow> Inr (Some pw)
           | Some po \<Rightarrow>
               (case isclose (p_x pw) (p_x po) (rel_tol g) 0 of Inl e \<Rightarrow> Inl e
                | Inr cx \<Rightarrow>
                    if \<not> cx then Inl (ValueError_NotEqual pw po)
                    else (case isclose (p_y pw) (p_y po) (rel_tol g) 0 of Inl e \<Rightarrow> Inl e
                          | Inr cy \<Rightarrow> if cy then Inr (Some pw)
                                      else Inl (ValueError_NotEqual pw po)))))))"

text \<open>
  The closeness test in the words of the specification:
  \<open>|a - b| \<le> rel_tol \<times> max(|a|, |b|)\<close>.
\<close>

definition close_spec :: "real \<Rightarrow> real \<Rightarrow> real \<Rightarrow> bool" where
  "close_spec rt a b = (\<bar>a - b\<bar> \<le> rt * max \<bar>a\<bar> \<bar>b\<bar>)"

text \<open>The same test with each operation rounded to binary64, as the program computes it.\<close>

definition close_double :: "real \<Rightarrow> real \<Rightarrow> real \<Rightarrow> bool" where
  "close_double rt a b = (\<bar>round_double (a - b)\<bar> \<le> round_double (rt * max \<bar>a\<bar> \<bar>b\<bar>))"

section \<open>Dispatch\<close>

text \<open>
  A provider method is a callable from an address to a response; \<open>None\<close> stands for any
  exception it throws. The \<^verbatim>\<open>geocoder\<close> module maps a name to its method;
  \<open>None\<close> stands for the \<^verbatim>\<open>AttributeError\<close> of \<^verbatim>\<open>getattr\<close>. The session is a
  resource of the transport and is left out.
\<close>

type_synonym provider = "string \<Rightarrow> response option"

type_synonym geocoder = "string \<Rightarrow> provider option"

text \<open>The argument \<^verbatim>\<open>address: Union[str, List[str]]\<close>.\<close>

datatype addresses = Str string | Lst "string list"

text \<open>
  What \<^verbatim>\<open>get_coordinates\<close> returns: \<^verbatim>\<open>None\<close>, one \<^verbatim>\<open>Point\<close>, or a list whose
  entries are points or \<^verbatim>\<open>None\<close>.
\<close>

datatype coordinates = RNone | RPoint point | RList "point option list"

text \<open>
  The loop \<^verbatim>\<open>for addr in address\<close>, threading the warnings emitted so far and
  \<^verbatim>\<open>result\<close>. The handler covers the call of the method only and appends nothing;
  \<^verbatim>\<open>__get_lat_and_lng\<close> runs in the \<^verbatim>\<open>else\<close> block, so its error ends the loop.
\<close>

fun for_addr :: "(string \<Rightarrow> real option) \<Rightarrow> geo \<Rightarrow> string \<Rightarrow> provider \<Rightarrow> string list
    \<Rightarrow> warning list \<times> point option list \<Rightarrow> warning list \<times> (error + point option list)" where
  "for_addr fl g method_name method [] (ws, result) = (ws, Inr result)"
| "for_addr fl g method_name method (addr # rest) (ws, result) =
     (case method addr of
        None \<Rightarrow> for_addr fl g method_name method rest (ws @ [CouldNotGetData method_name], result)
      | Some res \<Rightarrow>
          (case get_lat_and_lng fl g addr res of
             Inl e \<Rightarrow> (ws, Inl e)
           | Inr r \<Rightarrow> for_addr fl g method_name method rest (ws, result @ [r])))"

text \<open>
  \<^verbatim>\<open>return result if len(result) > 1 else result[0] if result else None\<close>
\<close>

definition return_value :: "point option list \<Rightarrow> coordinates" where
  "return_value result =
     (if length result > 1 then RList result
      else if result \<noteq> [] then (case result ! 0 of None \<Rightarrow> RNone | Some p \<Rightarrow> RPoint p)
      else RNone)"

text \<open>
  \<^verbatim>\<open>get_coordinates\<close>. \<^verbatim>\<open>filter(None, result)\<close> removes the falsy entries, which are
  the \<^verbatim>\<open>None\<close> ones.
\<close>

definition get_coordinates :: "(string \<Rightarrow> real option) \<Rightarrow> geocoder \<Rightarrow> geo \<Rightarrow> addresses \<Rightarrow> string \<Rightarrow> bool
    \<Rightarrow> warning list \<times> (error + coordinates)" where
  "get_coordinates fl geocoder g address method_name leave_null_values =
     (case geocoder method_name of
        None \<Rightarrow> ([], Inl (AttributeError method_name))
      | Some method \<Rightarrow>
          (case (case address of
                   Str a \<Rightarrow>
                     (case method a of
                        None \<Rightarrow> ([CouldNotGetData method_name], Inr [])
                      | Some res \<Rightarrow>
                          (case get_lat_and_lng fl g a res of
                             Inl e \<Rightarrow> ([], Inl e)
                           | Inr r \<Rightarrow> ([], Inr [r])))
                 | Lst as \<Rightarrow> for_addr fl g method_name method as ([], [])) of
             (ws, Inl e) \<Rightarrow> (ws, Inl e)
           | (ws, Inr result) \<Rightarrow>
               (ws, Inr (return_value
                  (if \<not> leave_null_values then filter (\<lambda>r. r \<noteq> None) result else result)))))"

text \<open>
  For stating results: the provider calls that returned, in the order of the addresses,
  each with its response.
\<close>

definition addr_list :: "addresses \<Rightarrow> string list" where
  "addr_list address = (case address of Str a \<Rightarrow> [a] | Lst as \<Rightarrow> as)"

definition answered_calls :: "provider \<Rightarrow> string list \<Rightarrow> (string \<times> response) list" where
  "answered_calls method as = List.map_filter (\<lambda>a. map_option (Pair a) (method a)) as"

section \<open>The table of several methods\<close>

text \<open>The argument \<^verbatim>\<open>method_name_vec: Optional[Union[str, Iterable[str]]]\<close>.\<close>

datatype names = NoNames | Name string | Names "string list"

text \<open>
  \<^verbatim>\<open>method_name_vec if method_name_vec else self.__allowed_methods\<close>, as the list the
  \<^verbatim>\<open>for\<close> loop runs over: a string is iterated character by character.
\<close>

definition requested :: "geo \<Rightarrow> names \<Rightarrow> string list" where
  "requested g method_name_vec =
     (case method_name_vec of
        NoNames \<Rightarrow> allowed_methods g
      | Name s \<Rightarrow> if s \<noteq> [] then map (\<lambda>c. [c]) s else allowed_methods g
      | Names l \<Rightarrow> if l \<noteq> [] then l else allowed_methods g)"

text \<open>What iterating \<^verbatim>\<open>address\<close> yields.\<close>

definition iter_addresses :: "addresses \<Rightarrow> string list" where
  "iter_addresses address = (case address of Str s \<Rightarrow> map (\<lambda>c. [c]) s | Lst as \<Rightarrow> as)"

text \<open>
  What iterating \<^verbatim>\<open>current_res\<close> yields: the entries of a list, or the three fields of
  a single \<^verbatim>\<open>Point\<close>, which is a tuple. \<^verbatim>\<open>None\<close> is never iterated, the test
  \<^verbatim>\<open>if current_res\<close> comes first.
\<close>

datatype pyobj = ONone | OPoint point | OStr string | OFloat real

fun iter_coordinates :: "coordinates \<Rightarrow> pyobj list" where
  "iter_coordinates RNone = []"
| "iter_coordinates (RPoint p) = [OStr (p_address p), OFloat (p_x p), OFloat (p_y p)]"
| "iter_coordinates (RList l) = map (\<lambda>r. case r of None \<Rightarrow> ONone | Some p \<Rightarrow> OPoint p) l"

fun truthy_coordinates :: "coordinates \<Rightarrow> bool" where
  "truthy_coordinates RNone = False"
| "truthy_coordinates (RPoint p) = True"
| "truthy_coordinates (RList l) = (l \<noteq> [])"

text \<open>
  A cell of the table: the pair \<^verbatim>\<open>[x, y]\<close>, or null (\<^verbatim>\<open>None\<close> or NaN).
  \<open>cell_of v\<close> is \<^verbatim>\<open>[v.x, v.y] if v else None\<close>: a truthy string or float has no
  attribute \<^verbatim>\<open>x\<close>.
\<close>

type_synonym cell = "(real \<times> real) option"

fun cell_of :: "pyobj \<Rightarrow> error + cell" where
  "cell_of ONone = Inr None"
| "cell_of (OPoint p) = Inr (Some (p_x p, p_y p))"
| "cell_of (OStr s) = (if s \<noteq> [] then Inl (AttributeError ''x'') else Inr None)"
| "cell_of (OFloat r) = (if r \<noteq> 0 then Inl (AttributeError ''x'') else Inr None)"

text \<open>
  The dictionary comprehension building \<^verbatim>\<open>data_\<close>, as the list of its writes in
  order; a later write to a key replaces an earlier one, so a key is read from the end.
\<close>

fun comprehension :: "(string \<times> pyobj) list \<Rightarrow> (string \<times> cell) list \<Rightarrow> error + (string \<times> cell) list" where
  "comprehension [] data = Inr data"
| "comprehension ((k, v) # rest) data =
     (case cell_of v of Inl e \<Rightarrow> Inl e | Inr c \<Rightarrow> comprehension rest (data @ [(k, c)]))"

definition read_key :: "(string \<times> cell) list \<Rightarrow> string \<Rightarrow> cell" where
  "read_key data k = (case map_of (rev data) k of None \<Rightarrow> None | Some c \<Rightarrow> c)"

text \<open>A data frame: row labels, column labels, and one list of cells per row.\<close>

record frame =
  index :: "string list"
  columns :: "string list"
  rows :: "cell list list"

text \<open>
  \<^verbatim>\<open>pd.DataFrame(data=data_, index=[method_name], columns=address)\<close>: one row, one
  column per entry of \<^verbatim>\<open>address\<close>, a key missing from \<^verbatim>\<open>data_\<close> read as null.
  A string is refused as the collection of column labels.
\<close>

definition DataFrame :: "(string \<times> cell) list \<Rightarrow> string \<Rightarrow> addresses \<Rightarrow> error + frame" where
  "DataFrame data method_name address =
     (case address of
        Str s \<Rightarrow> Inl TypeError_Index
      | Lst as \<Rightarrow> Inr \<lparr>index = [method_name], columns = as, rows = [map (read_key data) as]\<rparr>)"

text \<open>
  The loop \<^verbatim>\<open>for method_name in ...\<close> of \<^verbatim>\<open>get_multiple_method_coordinates\<close>,
  threading the warnings and \<^verbatim>\<open>df_vec\<close>.
\<close>

fun for_method :: "(string \<Rightarrow> real option) \<Rightarrow> geocoder \<Rightarrow> geo \<Rightarrow> addresses \<Rightarrow> string list
    \<Rightarrow> warning list \<times> frame list \<Rightarrow> warning list \<times> (error + frame list)" where
  "for_method fl geocoder g address [] (ws, df_vec) = (ws, Inr df_vec)"
| "for_method fl geocoder g address (method_name # rest) (ws, df_vec) =
     (if method_name \<notin> set (allowed_methods g)
      then for_method fl geocoder g address rest (ws @ [MethodNotFound method_name], df_vec)
      else
        (case get_coordinates fl geocoder g address method_name True of
           (ws', Inl e) \<Rightarrow> (ws @ ws', Inl e)
         | (ws', Inr current_res) \<Rightarrow>
             if truthy_coordinates current_res
             then
               (case comprehension (zip (iter_addresses address) (iter_coordinates current_res)) [] of
                  Inl e \<Rightarrow> (ws @ ws', Inl e)
                | Inr data \<Rightarrow>
                    (case DataFrame data method_name address of
                       Inl e \<Rightarrow> (ws @ ws', Inl e)
                     | Inr df \<Rightarrow> for_method fl geocoder g address rest (ws @ ws', df_vec @ [df])))
             else for_method fl geocoder g address rest (ws @ ws', df_vec)))"

text \<open>
  \<^verbatim>\<open>pd.concat(df_vec)\<close> for a non-empty list of frames that all have the columns
  \<^verbatim>\<open>address\<close>: the rows one after the other.
\<close>

definition concat_frames :: "frame list \<Rightarrow> frame" where
  "concat_frames df_vec =
     \<lparr>index = concat (map index df_vec), columns = columns (hd df_vec),
      rows = concat (map rows df_vec)\<rparr>"

text \<open>
  \<^verbatim>\<open>dropna(how='all')\<close> with the default axis: a row is kept when one of its cells
  is not null. Columns are not touched.
\<close>

definition dropna_all :: "frame \<Rightarrow> frame" where
  "dropna_all df =
     (let kept = filter (\<lambda>(i, r). filter (\<lambda>c. c \<noteq> None) r \<noteq> []) (zip (index df) (rows df))
      in \<lparr>index = map fst kept, columns = columns df, rows = map snd kept\<rparr>)"

text \<open>\<^verbatim>\<open>get_multiple_method_coordinates\<close>\<close>

definition get_multiple_method_coordinates :: "(string \<Rightarrow> real option) \<Rightarrow> geocoder \<Rightarrow> geo \<Rightarrow> addresses \<Rightarrow> names
    \<Rightarrow> warning list \<times> (error + frame option)" where
  "get_multiple_method_coordinates fl geocoder g address method_name_vec =
     (case for_method fl geocoder g address (requested g method_name_vec) ([], []) of
        (ws, Inl e) \<Rightarrow> (ws, Inl e)
      | (ws, Inr df_vec) \<Rightarrow>
          (ws, Inr (if df_vec \<noteq> [] then Some (dropna_all (concat_frames df_vec)) else None)))"

text \<open>
  For stating what the loop over the methods does: whether a requested method adds a frame
  (it is allowed and its dispatch returns a truthy result), and the warnings its turn of
  the loop emits.
\<close>

definition contributes :: "(string \<Rightarrow> real option) \<Rightarrow> geocoder \<Rightarrow> geo \<Rightarrow> addresses \<Rightarrow> string \<Rightarrow> bool" where
  "contributes fl geocoder g address m =
     (m \<in> set (allowed_methods g) \<and>
      (case snd (get_coordinates fl geocoder g address m True) of
         Inl e \<Rightarrow> False
       | Inr current_res \<Rightarrow> truthy_coordinates current_res))"

definition warnings_of :: "(string \<Rightarrow> real option) \<Rightarrow> geocoder \<Rightarrow> geo \<Rightarrow> addresses \<Rightarrow> string \<Rightarrow> warning list" where
  "warnings_of fl geocoder g address m =
     (if m \<in> set (allowed_methods g) then fst (get_coordinates fl geocoder g address m True)
      else [MethodNotFound m])"

section \<open>Sample configuration and responses\<close>

text \<open>The system as built with no argument.\<close>

definition default_geo :: geo where
  "default_geo = \<lparr>allowed_methods = default_allowed_methods, rel_tol = default_rel_tol\<rparr>"

text \<open>
  A response with both representations: the WKT text \<^verbatim>\<open>POINT(1.0 2.0)\<close> and a
  structured mapping with \<open>x = 1\<close> and \<open>y = v\<close>.
\<close>

definition both_response :: "real \<Rightarrow> response" where
  "both_response v = \<lparr>wkt = Attr (Some ''POINT(1.0 2.0)''), osm = Attr (Some [(''x'', VFloat 1), (''y'', VFloat v)])\<rparr>"

text \<open>
  Two more responses, one with the WKT text only and one of a query that found nothing
  (an empty text and an empty mapping), and a \<^verbatim>\<open>geocoder\<close> with three methods:
  \<^verbatim>\<open>osm\<close> throws for the addresses \<^verbatim>\<open>a2\<close> and \<^verbatim>\<open>a4\<close>, \<^verbatim>\<open>bing\<close> finds
  nothing, \<^verbatim>\<open>arcgis\<close> finds the address \<^verbatim>\<open>a1\<close> only.
\<close>

definition wkt_only :: response where
  "wkt_only = \<lparr>wkt = Attr (Some ''POINT(1.0 2.0)''), osm = NoAttr\<rparr>"

definition no_candidate :: response where
  "no_candidate = \<lparr>wkt = Attr (Some []), osm = Attr (Some [])\<rparr>"

definition sample_geocoder :: geocoder where
  "sample_geocoder name =
     (if name = ''osm'' then Some (\<lambda>a. if a = ''a2'' \<or> a = ''a4'' then None else Some wkt_only)
      else if name = ''bing'' then Some (\<lambda>a. Some no_candidate)
      else if name = ''arcgis'' then Some (\<lambda>a. if a = ''a1'' then Some wkt_only else Some no_candidate)
      else None)"

section \<open>Properties of rounding\<close>

lemma round_even_of_int: "round_even (of_int n) = n"
  by (simp add: round_even_def)

lemma round_even_bounds: "\<lfloor>v\<rfloor> \<le> round_even v" "round_even v \<le> \<lfloor>v\<rfloor> + 1"
  by (simp_all add: round_even_def Let_def)

lemma round_even_mono: "v \<le> w \<Longrightarrow> round_even v \<le> round_even w"
proof -
  assume vw: "v \<le> w"
  then have fl: "\<lfloor>v\<rfloor> \<le> \<lfloor>w\<rfloor>" by (rule floor_mono)
  show ?thesis
  proof (cases "\<lfloor>v\<rfloor> = \<lfloor>w\<rfloor>")
    case True
    then have "v - of_int \<lfloor>v\<rfloor> \<le> w - of_int \<lfloor>w\<rfloor>"
      using vw by simp
    then show ?thesis
      using True by (auto simp: round_even_def Let_def)
  next
    case False
    with fl have "\<lfloor>v\<rfloor> + 1 \<le> \<lfloor>w\<rfloor>" by simp
    with round_even_bounds(2) [of v] round_even_bounds(1) [of w] show ?thesis
      by linarith
  qed
qed

lemma round_even_nonneg: "0 \<le> v \<Longrightarrow> 0 \<le> round_even v"
  using round_even_mono [of 0 v] round_even_of_int [of 0] by simp

lemma binade_from_props:
  "e \<le> 1023 \<Longrightarrow>
   e \<le> binade_from e m \<and> binade_from e m \<le> 1023
   \<and> (binade_from e m < 1023 \<longrightarrow> m < 2 powi (binade_from e m + 1))
   \<and> (\<forall>k. e \<le> k \<and> k < binade_from e m \<longrightarrow> 2 powi (k + 1) \<le> m)"
proof (induction e m rule: binade_from.induct)
  case (1 e m)
  show ?case
  proof (cases "1023 \<le> e \<or> m < 2 powi (e + 1)")
    case True
    then show ?thesis
      using "1.prems" by (subst (1 2 3 4 5) binade_from.simps) auto
  next
    case False
    then have e: "e + 1 \<le> 1023" by simp
    have eq: "binade_from e m = binade_from (e + 1) m"
      using False by (subst binade_from.simps) simp
    from "1.IH" [OF False e] have ih:
      "e + 1 \<le> binade_from (e + 1) m" "binade_from (e + 1) m \<le> 1023"
      "binade_from (e + 1) m < 1023 \<longrightarrow> m < 2 powi (binade_from (e + 1) m + 1)"
      "\<forall>k. e + 1 \<le> k \<and> k < binade_from (e + 1) m \<longrightarrow> 2 powi (k + 1) \<le> m"
      by simp_all
    have "\<forall>k. e \<le> k \<and> k < binade_from (e + 1) m \<longrightarrow> 2 powi (k + 1) \<le> m"
    proof (intro allI impI)
      fix k assume k: "e \<le> k \<and> k < binade_from (e + 1) m"
      show "2 powi (k + 1) \<le> m"
      proof (cases "k = e")
        case True
        with False show ?thesis by simp
      next
        case False
        with k ih(4) show ?thesis by simp
      qed
    qed
    with ih show ?thesis unfolding eq by simp
  qed
qed

lemma binade_range: "- 1022 \<le> binade m" "binade m \<le> 1023"
  using binade_from_props [of "- 1022" m] by (simp_all add: binade_def)

lemma binade_upper: "binade m < 1023 \<Longrightarrow> m < 2 powi (binade m + 1)"
  using binade_from_props [of "- 1022" m] by (simp add: binade_def)

lemma binade_least: "- 1022 \<le> k \<Longrightarrow> k < binade m \<Longrightarrow> 2 powi (k + 1) \<le> m"
  using binade_from_props [of "- 1022" m] by (simp add: binade_def)

lemma binade_lower: "- 1022 < binade m \<Longrightarrow> 2 powi (binade m) \<le> m"
  using binade_least [of "binade m - 1" m] by simp

lemma binade_mono: "m \<le> n \<Longrightarrow> binade m \<le> binade n"
proof (rule ccontr)
  assume mn: "m \<le> n" and "\<not> binade m \<le> binade n"
  then have lt: "binade n < binade m" by simp
  with binade_range(2) [of m] have "binade n < 1023" by linarith
  then have "n < 2 powi (binade n + 1)" by (rule binade_upper)
  moreover have "2 powi (binade n + 1) \<le> m"
    using binade_least [OF binade_range(1) lt] .
  ultimately show False using mn by linarith
qed

lemma binade_eq:
  assumes "- 1022 \<le> k" "k \<le> 1023" "2 powi k \<le> m" "m < 2 powi (k + 1)"
  shows "binade m = k"
proof (rule antisym)
  show "binade m \<le> k"
  proof (rule ccontr)
    assume "\<not> binade m \<le> k"
    then have "k < binade m" by simp
    from binade_least [OF assms(1) this] assms(4) show False by linarith
  qed
  show "k \<le> binade m"
  proof (rule ccontr)
    assume "\<not> k \<le> binade m"
    then have lt: "binade m < k" by simp
    with assms(2) have "binade m < 1023" by linarith
    then have "m < 2 powi (binade m + 1)" by (rule binade_upper)
    moreover have "(2::real) powi (binade m + 1) \<le> 2 powi k"
      using lt by (intro power_int_increasing) auto
    ultimately show False using assms(3) by linarith
  qed
qed

lemma round_mag_nonneg: "0 \<le> m \<Longrightarrow> 0 \<le> round_mag m"
  by (simp add: round_mag_def Let_def round_even_nonneg)

lemma round_mag_0: "round_mag 0 = 0"
  by (simp add: round_mag_def Let_def round_even_of_int [of 0, simplified])

lemma pow2_split: "(2 powi (a + int n) :: real) = 2 powi a * 2 ^ n"
  by (subst power_int_add) simp_all

lemma scaled_upper:
  assumes "m < 2 powi (k + 1)"
  shows "2 powi (k - 52) * of_int (round_even (m / 2 powi (k - 52))) \<le> (2 powi (k + 1) :: real)"
proof -
  let ?u = "2 powi (k - 52) :: real"
  have u: "0 < ?u" by simp
  have split: "(2 powi (k + 1) :: real) = ?u * 2 ^ 53"
    using pow2_split [of "k - 52" 53] by (simp add: add.commute)
  have "m / ?u \<le> 2 ^ 53"
    using assms u unfolding split by (simp add: field_simps)
  then have "m / ?u \<le> of_int (2 ^ 53)" by simp
  then have "round_even (m / ?u) \<le> round_even (of_int (2 ^ 53))"
    by (rule round_even_mono)
  then have "round_even (m / ?u) \<le> 2 ^ 53"
    by (simp only: round_even_of_int)
  then have "(of_int (round_even (m / ?u)) :: real) \<le> 2 ^ 53"
    by (metis of_int_le_iff of_int_numeral of_int_power)
  then have "?u * of_int (round_even (m / ?u)) \<le> ?u * 2 ^ 53"
    using u by (simp only: mult_le_cancel_left_pos)
  then show ?thesis
    unfolding split .
qed

lemma scaled_lower:
  assumes "2 powi k \<le> m"
  shows "(2 powi k :: real) \<le> 2 powi (k - 52) * of_int (round_even (m / 2 powi (k - 52)))"
proof -
  let ?u = "2 powi (k - 52) :: real"
  have u: "0 < ?u" by simp
  have split: "(2 powi k :: real) = ?u * 2 ^ 52"
    using pow2_split [of "k - 52" 52] by simp
  have "2 ^ 52 \<le> m / ?u"
    using assms u unfolding split by (simp add: field_simps)
  then have "of_int (2 ^ 52) \<le> m / ?u" by simp
  then have "round_even (of_int (2 ^ 52)) \<le> round_even (m / ?u)"
    by (rule round_even_mono)
  then have "2 ^ 52 \<le> round_even (m / ?u)"
    by (simp only: round_even_of_int)
  then have "(2 ^ 52 :: real) \<le> of_int (round_even (m / ?u))"
    by (metis of_int_le_iff of_int_numeral of_int_power)
  then have "?u * 2 ^ 52 \<le> ?u * of_int (round_even (m / ?u))"
    using u by (simp only: mult_le_cancel_left_pos)
  then show ?thesis
    unfolding split .
qed

lemma round_mag_mono:
  assumes "m \<le> n"
  shows "round_mag m \<le> round_mag n"
proof (cases "binade m = binade n")
  case True
  let ?u = "2 powi (binade n - 52) :: real"
  have u: "0 < ?u" by simp
  have "m / ?u \<le> n / ?u"
    using assms u by (simp add: divide_right_mono)
  then have "round_even (m / ?u) \<le> round_even (n / ?u)"
    by (rule round_even_mono)
  then have "?u * of_int (round_even (m / ?u)) \<le> ?u * of_int (round_even (n / ?u))"
    using u by simp
  then show ?thesis
    unfolding round_mag_def Let_def True by (rule min.mono [OF order_refl])
next
  case False
  with binade_mono [OF assms] have lt: "binade m < binade n" by simp
  let ?k = "binade m"
  have k: "?k < 1023" using lt binade_range(2) [of n] by linarith
  have up: "2 powi (?k - 52) * of_int (round_even (m / 2 powi (?k - 52))) \<le> (2 powi (?k + 1) :: real)"
    using scaled_upper [OF binade_upper [OF k]] .
  have "- 1022 < binade n" using lt binade_range(1) [of m] by linarith
  then have "2 powi (binade n) \<le> n" by (rule binade_lower)
  then have lo: "(2 powi (binade n) :: real) \<le> 2 powi (binade n - 52) * of_int (round_even (n / 2 powi (binade n - 52)))"
    by (rule scaled_lower)
  have step: "(2 powi (?k + 1) :: real) \<le> 2 powi (binade n)"
    using lt by (intro power_int_increasing) auto
  have top: "(2 powi (?k + 1) :: real) \<le> 2 powi 1024"
    using k by (intro power_int_increasing) auto
  have "round_mag m \<le> 2 powi (?k + 1)"
    unfolding round_mag_def Let_def using up by (simp add: min_le_iff_disj)
  also have "\<dots> \<le> round_mag n"
    unfolding round_mag_def Let_def using lo step top by (intro min.boundedI) linarith+
  finally show ?thesis .
qed

lemma round_mag_pow2:
  assumes "- 1022 \<le> k" "k \<le> 1023"
  shows "round_mag (2 powi k) = 2 powi k"
proof -
  have b: "binade (2 powi k) = k"
    by (rule binade_eq [OF assms]) (simp_all add: power_int_strict_increasing)
  let ?u = "2 powi (k - 52) :: real"
  have split: "(2 powi k :: real) = ?u * 2 ^ 52"
    using pow2_split [of "k - 52" 52] by simp
  have "(2 powi k :: real) / ?u = of_int (2 ^ 52)"
    unfolding split by simp
  then have "round_even (2 powi k / ?u) = 2 ^ 52"
    by (simp only: round_even_of_int)
  then have "?u * of_int (round_even (2 powi k / ?u)) = 2 powi k"
    using split by simp
  moreover have "(2 powi k :: real) \<le> 2 powi 1024"
    using assms by (intro power_int_increasing) auto
  ultimately show ?thesis
    unfolding round_mag_def Let_def b by (simp only: min_absorb2)
qed

lemma round_double_0: "round_double 0 = 0"
  by (simp add: round_double_def)

lemma round_double_minus: "round_double (- v) = - round_double v"
  by (simp add: round_double_def sgn_minus)

lemma abs_round_double: "\<bar>round_double v\<bar> = round_mag \<bar>v\<bar>"
  using round_mag_nonneg [of "\<bar>v\<bar>"]
  by (cases "v = 0") (simp_all add: round_double_def abs_mult round_mag_0)

lemma round_double_nonneg: "0 \<le> v \<Longrightarrow> round_double v = round_mag v"
  by (cases "v = 0") (simp_all add: round_double_def round_mag_0)

lemma round_double_mono:
  assumes "v \<le> w"
  shows "round_double v \<le> round_double w"
proof (cases "0 \<le> v")
  case True
  with assms have "0 \<le> w" by simp
  with True assms show ?thesis
    by (simp add: round_double_nonneg round_mag_mono)
next
  case v: False
  show ?thesis
  proof (cases "0 \<le> w")
    case True
    have "round_double v \<le> 0"
      using v round_mag_nonneg [of "\<bar>v\<bar>"] by (simp add: round_double_def)
    also have "0 \<le> round_double w"
      using True by (simp add: round_double_nonneg round_mag_nonneg)
    finally show ?thesis .
  next
    case False
    with v assms have "\<bar>w\<bar> \<le> \<bar>v\<bar>" by simp
    then have "round_mag \<bar>w\<bar> \<le> round_mag \<bar>v\<bar>" by (rule round_mag_mono)
    with v False show ?thesis by (simp add: round_double_def)
  qed
qed

lemma round_double_pow2:
  "- 1022 \<le> k \<Longrightarrow> k \<le> 1023 \<Longrightarrow> round_double (2 powi k) = 2 powi k"
  by (simp add: round_double_nonneg round_mag_pow2)

section \<open>Properties of the pattern\<close>

lemma first_some_top:
  "0 < n \<Longrightarrow> f n = Some v \<Longrightarrow> first_some (map f (rev [1 ..< Suc n])) = Some v"
  by simp

lemma first_some_second:
  "0 < n \<Longrightarrow> f (Suc n) = None \<Longrightarrow> f n = Some v \<Longrightarrow>
   first_some (map f (rev [1 ..< Suc (Suc n)])) = Some v"
  by simp

lemma first_some_SomeD:
  "first_some (map f ns) = Some v \<Longrightarrow> \<exists>n \<in> set ns. f n = Some v"
proof (induction ns)
  case Nil
  then show ?case by simp
next
  case (Cons n ns)
  then show ?case by (cases "f n") auto
qed

lemma takeWhile_run:
  assumes "\<forall>c \<in> set run. P c" and "rest = [] \<or> \<not> P (hd rest)"
  shows "takeWhile P (run @ rest) = run"
  using assms by (cases rest) (auto simp: takeWhile_append2 takeWhile_tail)

lemma isspace_newline: "isspace (CHR 0x0A)"
  by (simp add: isspace_def)

lemma not_isspace_paren: "\<not> isspace CHR '')''"
  by (simp add: isspace_def)

text \<open>
  Every text of the shape \<^verbatim>\<open>POINT(\<close>, a run of non-space characters, a run of spaces, a
  second run of non-space characters, \<^verbatim>\<open>)\<close> and an optional final newline matches, and
  the two runs are the groups.
\<close>

lemma parse_wtk_shape:
  assumes tx: "tx \<noteq> []" "\<forall>c \<in> set tx. \<not> isspace c"
      and ws: "ws \<noteq> []" "\<forall>c \<in> set ws. isspace c"
      and ty: "ty \<noteq> []" "\<forall>c \<in> set ty. \<not> isspace c"
      and nl: "nl = [] \<or> nl = [CHR 0x0A]"
  shows "parse_wtk (''POINT('' @ tx @ ws @ ty @ '')'' @ nl) = Some [(''x'', VStr tx), (''y'', VStr ty)]"
proof -
  let ?cx = "[(''x'', VStr tx)]"
  let ?r3 = "[Lit '')'']"
  let ?r2 = "NamedPlus ''y'' NonSpace # ?r3"
  let ?r1 = "Plus Space # ?r2"
  let ?r0 = "NamedPlus ''x'' NonSpace # ?r1"
  let ?cxy = "[(''x'', VStr tx), (''y'', VStr ty)]"
  have end_ok: "match_here ?r3 ('')'' @ nl) ?cxy = Some ?cxy"
    using nl by auto
  have end_bad: "match_here ?r3 nl c = None" for c
    using nl by auto
  have run_y: "takeWhile (in_cls NonSpace) (ty @ '')'' @ nl) = ty @ '')''"
  proof -
    have "takeWhile (in_cls NonSpace) ((ty @ '')'') @ nl) = ty @ '')''"
      by (rule takeWhile_run) (use ty nl in \<open>auto simp: isspace_def\<close>)
    then show ?thesis by simp
  qed
  have step_y: "match_here ?r2 (ty @ '')'' @ nl) ?cx = Some ?cxy"
  proof -
    let ?f = "\<lambda>n. match_here ?r3 (drop n (ty @ '')'' @ nl)) (?cx @ [(''y'', VStr (take n (ty @ '')'' @ nl)))])"
    have "?f (Suc (length ty)) = None"
      using end_bad by simp
    moreover have "?f (length ty) = Some ?cxy"
      using end_ok by simp
    ultimately have "first_some (map ?f (rev [1 ..< Suc (Suc (length ty))])) = Some ?cxy"
      using ty(1) by (intro first_some_second) auto
    then show ?thesis
      by (simp only: match_here.simps run_y length_append list.size) simp
  qed
  have run_ws: "takeWhile (in_cls Space) (ws @ ty @ '')'' @ nl) = ws"
    by (rule takeWhile_run) (use ws ty in \<open>auto simp: neq_Nil_conv\<close>)
  have step_ws: "match_here ?r1 (ws @ ty @ '')'' @ nl) ?cx = Some ?cxy"
  proof -
    let ?f = "\<lambda>n. match_here ?r2 (drop n (ws @ ty @ '')'' @ nl)) ?cx"
    have "?f (length ws) = Some ?cxy"
      using step_y by simp
    then have "first_some (map ?f (rev [1 ..< Suc (length ws)])) = Some ?cxy"
      using ws(1) by (intro first_some_top) auto
    then show ?thesis
      by (simp only: match_here.simps run_ws)
  qed
  have run_x: "takeWhile (in_cls NonSpace) (tx @ ws @ ty @ '')'' @ nl) = tx"
    by (rule takeWhile_run) (use tx ws in \<open>auto simp: neq_Nil_conv\<close>)
  have step_x: "match_here ?r0 (tx @ ws @ ty @ '')'' @ nl) [] = Some ?cxy"
  proof -
    let ?f = "\<lambda>n. match_here ?r1 (drop n (tx @ ws @ ty @ '')'' @ nl)) ([] @ [(''x'', VStr (take n (tx @ ws @ ty @ '')'' @ nl)))])"
    have "?f (length tx) = Some ?cxy"
      using step_ws by simp
    then have "first_some (map ?f (rev [1 ..< Suc (length tx)])) = Some ?cxy"
      using tx(1) by (intro first_some_top) auto
    then show ?thesis
      by (simp only: match_here.simps run_x)
  qed
  show ?thesis
    unfolding parse_wtk_def wkt_pattern_def
    using step_x by simp
qed

lemma match_end_SomeD: "match_here [] s caps = Some d \<Longrightarrow> d = caps"
  by (simp split: if_splits)

lemma match_lit_SomeD:
  "match_here (Lit l # r) s caps = Some d \<Longrightarrow> match_here r (drop (length l) s) caps = Some d"
  by (simp split: if_splits)

lemma match_plus_SomeD:
  "match_here (Plus c # r) s caps = Some d \<Longrightarrow> \<exists>n. match_here r (drop n s) caps = Some d"
  by (auto dest!: first_some_SomeD)

lemma match_named_SomeD:
  "match_here (NamedPlus g c # r) s caps = Some d \<Longrightarrow>
   \<exists>n. 1 \<le> n \<and> n \<le> length s \<and> match_here r (drop n s) (caps @ [(g, VStr (take n s))]) = Some d"
proof -
  assume "match_here (NamedPlus g c # r) s caps = Some d"
  then obtain n where n: "1 \<le> n" "n \<le> length (takeWhile (in_cls c) s)"
      and m: "match_here r (drop n s) (caps @ [(g, VStr (take n s))]) = Some d"
    by (auto dest!: first_some_SomeD)
  have "n \<le> length s"
    using n(2) length_takeWhile_le [of "in_cls c" s] by linarith
  with n(1) m show ?thesis by blast
qed

text \<open>Every match yields exactly the two groups, and neither is empty.\<close>

lemma parse_wtk_groups:
  assumes "parse_wtk s = Some d"
  shows "\<exists>tx ty. tx \<noteq> [] \<and> ty \<noteq> [] \<and> d = [(''x'', VStr tx), (''y'', VStr ty)]"
proof -
  from assms obtain s1 where m1:
    "match_here [NamedPlus ''x'' NonSpace, Plus Space, NamedPlus ''y'' NonSpace, Lit '')''] s1 [] = Some d"
    unfolding parse_wtk_def wkt_pattern_def by (blast dest: match_lit_SomeD)
  obtain n1 s2 where tx: "1 \<le> n1" "n1 \<le> length s1"
      and m2: "match_here [Plus Space, NamedPlus ''y'' NonSpace, Lit '')''] s2 [(''x'', VStr (take n1 s1))] = Some d"
    using match_named_SomeD [OF m1] unfolding append_Nil by blast
  obtain s3 where m3:
    "match_here [NamedPlus ''y'' NonSpace, Lit '')''] s3 [(''x'', VStr (take n1 s1))] = Some d"
    using match_plus_SomeD [OF m2] by blast
  obtain n3 s4 where ty: "1 \<le> n3" "n3 \<le> length s3"
      and m4: "match_here [Lit '')''] s4 ([(''x'', VStr (take n1 s1))] @ [(''y'', VStr (take n3 s3))]) = Some d"
    using match_named_SomeD [OF m3] by blast
  have "d = [(''x'', VStr (take n1 s1))] @ [(''y'', VStr (take n3 s3))]"
    using match_end_SomeD [OF match_lit_SomeD [OF m4]] .
  then have "d = [(''x'', VStr (take n1 s1)), (''y'', VStr (take n3 s3))]"
    by simp
  moreover have "take n1 s1 \<noteq> []" "take n3 s3 \<noteq> []"
    using tx ty by auto
  ultimately show ?thesis by blast
qed

section \<open>Properties of extraction and reconciliation\<close>

lemma point_of_dict_address:
  "point_of_dict fl addr d = Inr (Some p) \<Longrightarrow> p_address p = addr"
  by (auto simp: point_of_dict_def Let_def split: if_splits sum.splits)

lemma get_wkt_address: "get_wkt fl addr q = Inr (Some p) \<Longrightarrow> p_address p = addr"
  by (auto simp: get_wkt_def dest: point_of_dict_address split: attr.splits option.splits if_splits)

lemma get_osm_address: "get_osm fl addr q = Inr (Some p) \<Longrightarrow> p_address p = addr"
  by (auto simp: get_osm_def dest: point_of_dict_address split: attr.splits option.splits if_splits)

lemma round_double_nonneg_ge: "0 \<le> v \<Longrightarrow> 0 \<le> round_double v"
  using round_double_mono [of 0 v] by (simp add: round_double_0)

lemma round_double_max: "round_double (max v w) = max (round_double v) (round_double w)"
proof (cases "v \<le> w")
  case True
  then have "round_double v \<le> round_double w" by (rule round_double_mono)
  with True show ?thesis by (simp add: max_absorb2)
next
  case False
  then have "w \<le> v" by simp
  then have "round_double w \<le> round_double v" by (rule round_double_mono)
  with \<open>w \<le> v\<close> show ?thesis by (simp add: max_absorb1)
qed

lemma isclose_double: "0 \<le> rt \<Longrightarrow> isclose a b rt 0 = Inr (close_double rt a b)"
proof (cases "a = b")
  case True
  assume rt: "0 \<le> rt"
  then have "0 \<le> round_double (rt * max \<bar>a\<bar> \<bar>a\<bar>)"
    by (intro round_double_nonneg_ge) simp
  then show ?thesis
    using True rt by (simp add: isclose_def close_double_def round_double_0)
next
  case False
  assume rt: "0 \<le> rt"
  let ?d = "\<bar>round_double (a - b)\<bar>"
  have "rt * max \<bar>a\<bar> \<bar>b\<bar> = max (rt * \<bar>a\<bar>) (rt * \<bar>b\<bar>)"
    using rt by (simp add: max_mult_distrib_left)
  then have m: "round_double (rt * max \<bar>a\<bar> \<bar>b\<bar>) = max (round_double (rt * \<bar>a\<bar>)) (round_double (rt * \<bar>b\<bar>))"
    by (simp only: round_double_max)
  have n: "0 \<le> round_double (rt * \<bar>a\<bar>)"
    using rt by (intro round_double_nonneg_ge) simp
  have "(?d \<le> round_double (rt * \<bar>b\<bar>) \<or> ?d \<le> round_double (rt * \<bar>a\<bar>) \<or> ?d \<le> 0) = close_double rt a b"
    unfolding close_double_def m using n by (auto simp: le_max_iff_disj)
  then show ?thesis
    using rt False by (simp add: isclose_def Let_def)
qed

lemma close_spec_double: "close_spec rt a b \<Longrightarrow> close_double rt a b"
proof -
  assume "close_spec rt a b"
  then have "\<bar>a - b\<bar> \<le> rt * max \<bar>a\<bar> \<bar>b\<bar>"
    by (simp add: close_spec_def)
  then have "round_double \<bar>a - b\<bar> \<le> round_double (rt * max \<bar>a\<bar> \<bar>b\<bar>)"
    by (rule round_double_mono)
  then show ?thesis
    by (simp add: close_double_def abs_round_double round_double_nonneg)
qed

text \<open>
  Rounding matters: with the tolerance set to the binary64 number nearest to one third,
  the values 2 and 3 are close for the program, the product rounding up to 1, and not
  close under the exact test.
\<close>

lemma third_rounds_up:
  "close_double (6004799503160661 / 2 ^ 54) 2 3 \<and> \<not> close_spec (6004799503160661 / 2 ^ 54) 2 3"
proof -
  let ?p = "18014398509481983 / 2 ^ 54 :: real"
  have b: "binade ?p = - 1"
    by (rule binade_eq) (simp_all add: power_int_minus)
  have u: "(2 powi (- 1 - 52) :: real) = 1 / 2 ^ 53"
    by (simp add: power_int_minus field_simps)
  have q: "?p / (1 / 2 ^ 53) = 18014398509481983 / 2"
    by simp
  have fl: "\<lfloor>18014398509481983 / 2 :: real\<rfloor> = 9007199254740991"
    by (simp add: floor_eq_iff)
  have e: "round_even (18014398509481983 / 2) = 9007199254740992"
    unfolding round_even_def fl Let_def by simp
  have "round_mag ?p = 1"
    unfolding round_mag_def Let_def b u q e by (simp add: power_int_minus)
  then have prod: "round_double ((6004799503160661 / 2 ^ 54) * max \<bar>2\<bar> \<bar>3\<bar>) = 1"
    by (simp add: round_double_nonneg)
  have one: "round_double 1 = 1"
    using round_double_pow2 [of 0] by simp
  have "round_double (2 - 3) = - round_double 1"
    using round_double_minus [of 1] by simp
  then have diff: "\<bar>round_double (2 - 3)\<bar> = 1"
    by (simp add: one)
  show ?thesis
    unfolding close_double_def close_spec_def diff prod by simp
qed

lemma isclose_negative: "rt < 0 \<Longrightarrow> isclose a b rt 0 = Inl ValueError_Tolerance"
  by (simp add: isclose_def)

lemmas extract_eval = get_wkt_def get_osm_def parse_wtk_def wkt_pattern_def isspace_def
  point_of_dict_def dict_get_def py_float_def unsigned_float_def digit_of_def

lemma both_response_wkt: "get_wkt py_float ''Main St'' (both_response v) = Inr (Some (Point ''Main St'' 1 2))"
  by (simp add: both_response_def extract_eval)

lemma both_response_osm: "v \<noteq> 0 \<Longrightarrow> get_osm py_float ''Main St'' (both_response v) = Inr (Some (Point ''Main St'' 1 v))"
  by (simp add: both_response_def extract_eval)

lemma to_float_error: "to_float fl v = Inl e \<Longrightarrow> e \<noteq> ValueError_Tolerance"
  by (cases v) (auto split: option.splits)

lemma point_of_dict_error: "point_of_dict fl addr d = Inl e \<Longrightarrow> e \<noteq> ValueError_Tolerance"
  by (auto simp: point_of_dict_def Let_def dest: to_float_error split: if_splits sum.splits)

lemma get_wkt_error: "get_wkt fl addr q = Inl e \<Longrightarrow> e \<noteq> ValueError_Tolerance"
  by (auto simp: get_wkt_def dest: point_of_dict_error split: attr.splits option.splits if_splits)

lemma get_osm_error: "get_osm fl addr q = Inl e \<Longrightarrow> e \<noteq> ValueError_Tolerance"
  by (auto simp: get_osm_def dest: point_of_dict_error split: attr.splits option.splits if_splits)

lemma isclose_error: "isclose a b rt 0 = Inl e \<Longrightarrow> rt < 0"
  by (auto simp: isclose_def Let_def split: if_splits)

lemma tolerance_error_only:
  assumes "get_lat_and_lng fl g addr q = Inl ValueError_Tolerance"
  shows "rel_tol g < 0 \<and> (\<exists>pw po. get_wkt fl addr q = Inr (Some pw) \<and> get_osm fl addr q = Inr (Some po))"
proof (cases "get_wkt fl addr q")
  case (Inl e)
  with assms get_wkt_error [OF Inl] show ?thesis
    by (simp add: get_lat_and_lng_def)
next
  case w: (Inr w_opt)
  show ?thesis
  proof (cases "get_osm fl addr q")
    case (Inl e)
    with assms w get_osm_error [OF Inl] show ?thesis
      by (simp add: get_lat_and_lng_def)
  next
    case s: (Inr o_opt)
    show ?thesis
    proof (cases w_opt)
      case None
      with assms w s show ?thesis by (simp add: get_lat_and_lng_def)
    next
      case pw: (Some pw)
      show ?thesis
      proof (cases o_opt)
        case None
        with assms w s pw show ?thesis by (simp add: get_lat_and_lng_def)
      next
        case (Some po)
        have "rel_tol g < 0"
        proof (rule ccontr)
          assume "\<not> rel_tol g < 0"
          then have "isclose a b (rel_tol g) 0 = Inr (close_double (rel_tol g) a b)" for a b
            by (simp add: isclose_double)
          with assms w s pw Some show False
            by (simp add: get_lat_and_lng_def split: if_splits)
        qed
        with w s pw Some show ?thesis by simp
      qed
    qed
  qed
qed

lemma for_addr_error:
  "for_addr fl g mn meth as (ws, acc) = (ws', Inl e) \<Longrightarrow>
   \<exists>a res. get_lat_and_lng fl g a res = Inl e"
proof (induction as arbitrary: ws acc)
  case Nil
  then show ?case by simp
next
  case (Cons a as)
  show ?case
  proof (cases "meth a")
    case None
    with Cons.prems have "for_addr fl g mn meth as (ws @ [CouldNotGetData mn], acc) = (ws', Inl e)"
      by simp
    from Cons.IH [OF this] show ?thesis .
  next
    case (Some res)
    show ?thesis
    proof (cases "get_lat_and_lng fl g a res")
      case (Inl e')
      with Cons.prems Some have "e' = e" by simp
      with Inl show ?thesis by blast
    next
      case (Inr r)
      with Cons.prems Some have "for_addr fl g mn meth as (ws, acc @ [r]) = (ws', Inl e)"
        by simp
      from Cons.IH [OF this] show ?thesis .
    qed
  qed
qed

lemma get_coordinates_error:
  assumes "get_coordinates fl geocoder g address mn lv = (ws, Inl e)"
  shows "e = AttributeError mn \<or> (\<exists>a res. get_lat_and_lng fl g a res = Inl e)"
proof (cases "geocoder mn")
  case None
  with assms show ?thesis by (simp add: get_coordinates_def)
next
  case (Some meth)
  show ?thesis
  proof (cases address)
    case (Str a)
    with assms Some show ?thesis
      by (auto simp: get_coordinates_def split: option.splits sum.splits)
  next
    case (Lst as)
    with assms Some have "for_addr fl g mn meth as ([], []) = (ws, Inl e)"
      by (auto simp: get_coordinates_def split: prod.splits sum.splits)
    from for_addr_error [OF this] show ?thesis by blast
  qed
qed

lemma comprehension_error:
  "comprehension kvs data = Inl e \<Longrightarrow> e = AttributeError ''x''"
proof (induction kvs arbitrary: data)
  case Nil
  then show ?case by simp
next
  case (Cons kv kvs)
  obtain k v where kv: "kv = (k, v)" by (cases kv)
  show ?case
  proof (cases "cell_of v")
    case (Inl e')
    then have "e' = AttributeError ''x''"
      by (cases v) (auto split: if_splits)
    with Cons.prems kv Inl show ?thesis by simp
  next
    case (Inr c)
    with Cons.prems kv have "comprehension kvs (data @ [(k, c)]) = Inl e" by simp
    from Cons.IH [OF this] show ?thesis .
  qed
qed

lemma DataFrame_error: "DataFrame data m address = Inl e \<Longrightarrow> e = TypeError_Index"
  by (auto simp: DataFrame_def split: addresses.splits)

lemma for_method_error:
  "for_method fl geocoder g address ms (ws, dfs) = (ws', Inl e) \<Longrightarrow>
   e = AttributeError ''x'' \<or> e = TypeError_Index \<or> (\<exists>m. e = AttributeError m)
   \<or> (\<exists>a res. get_lat_and_lng fl g a res = Inl e)"
proof (induction ms arbitrary: ws dfs)
  case Nil
  then show ?case by simp
next
  case (Cons m ms)
  show ?case
  proof (cases "m \<in> set (allowed_methods g)")
    case False
    with Cons.prems have "for_method fl geocoder g address ms (ws @ [MethodNotFound m], dfs) = (ws', Inl e)"
      by simp
    from Cons.IH [OF this] show ?thesis .
  next
    case True
    obtain w1 res where gc: "get_coordinates fl geocoder g address m True = (w1, res)"
      by (cases "get_coordinates fl geocoder g address m True")
    show ?thesis
    proof (cases res)
      case (Inl e')
      with True gc Cons.prems have "e' = e" by simp
      with get_coordinates_error [OF gc [unfolded Inl]] show ?thesis by blast
    next
      case (Inr cur)
      show ?thesis
      proof (cases "truthy_coordinates cur")
        case False
        with True gc Inr Cons.prems have "for_method fl geocoder g address ms (ws @ w1, dfs) = (ws', Inl e)"
          by simp
        from Cons.IH [OF this] show ?thesis .
      next
        case t: True
        show ?thesis
        proof (cases "comprehension (zip (iter_addresses address) (iter_coordinates cur)) []")
          case (Inl e')
          with True gc Inr t Cons.prems have "e' = e" by simp
          with comprehension_error [OF Inl] show ?thesis by simp
        next
          case d: (Inr data)
          show ?thesis
          proof (cases "DataFrame data m address")
            case (Inl e')
            with True gc Inr t d Cons.prems have "e' = e" by simp
            with DataFrame_error [OF Inl] show ?thesis by simp
          next
            case (Inr df)
            with True gc \<open>res = Inr cur\<close> t d Cons.prems
            have "for_method fl geocoder g address ms (ws @ w1, dfs @ [df]) = (ws', Inl e)"
              by simp
            from Cons.IH [OF this] show ?thesis .
          qed
        qed
      qed
    qed
  qed
qed

lemma tolerance_never_reported:
  assumes "0 \<le> rel_tol g"
  shows "get_lat_and_lng fl g addr q \<noteq> Inl ValueError_Tolerance"
    and "snd (get_coordinates fl geocoder g address mn lv) \<noteq> Inl ValueError_Tolerance"
    and "snd (get_multiple_method_coordinates fl geocoder g address v) \<noteq> Inl ValueError_Tolerance"
proof -
  have r: "get_lat_and_lng fl g a res \<noteq> Inl ValueError_Tolerance" for a res
    using tolerance_error_only [of fl g a res] assms by auto
  show "get_lat_and_lng fl g addr q \<noteq> Inl ValueError_Tolerance"
    by (rule r)
  show "snd (get_coordinates fl geocoder g address mn lv) \<noteq> Inl ValueError_Tolerance"
  proof
    assume a: "snd (get_coordinates fl geocoder g address mn lv) = Inl ValueError_Tolerance"
    obtain ws where "get_coordinates fl geocoder g address mn lv = (ws, Inl ValueError_Tolerance)"
      using a by (cases "get_coordinates fl geocoder g address mn lv") simp
    from get_coordinates_error [OF this] r show False by auto
  qed
  show "snd (get_multiple_method_coordinates fl geocoder g address v) \<noteq> Inl ValueError_Tolerance"
  proof
    assume a: "snd (get_multiple_method_coordinates fl geocoder g address v) = Inl ValueError_Tolerance"
    obtain ws where "for_method fl geocoder g address (requested g v) ([], []) = (ws, Inl ValueError_Tolerance)"
      using a by (auto simp: get_multiple_method_coordinates_def split: prod.splits sum.splits)
    from for_method_error [OF this] r show False by auto
  qed
qed

text \<open>
  C2, as stated, fails: a zero tolerance and a negative tolerance are both accepted by the
  constructor.
\<close>

theorem init_accepts_nonpositive_tolerance:
  "init default_allowed_methods 0 = Inr \<lparr>allowed_methods = default_allowed_methods, rel_tol = 0\<rparr>
   \<and> init default_allowed_methods (- 1) = Inr \<lparr>allowed_methods = default_allowed_methods, rel_tol = - 1\<rparr>"
  by (simp add: init_def)

text \<open>
  C2, amended: construction validates nothing and never fails. For every allow-list and
  every tolerance, positive, zero or negative, it yields a system holding exactly these
  two values. A negative tolerance shows only later, as the error of the closeness test:
  reconciliation raises it when both candidates are present, and raises it in no other
  case. A tolerance that is zero or positive is never reported, neither by reconciliation
  nor by \<^verbatim>\<open>get_coordinates\<close> nor by \<^verbatim>\<open>get_multiple_method_coordinates\<close>.
\<close>

theorem init_never_fails:
  "\<exists>g. init allowed rt = Inr g \<and> allowed_methods g = allowed \<and> rel_tol g = rt
       \<and> (rt < 0 \<and> get_wkt fl addr q = Inr (Some pw) \<and> get_osm fl addr q = Inr (Some po)
            \<longrightarrow> get_lat_and_lng fl g addr q = Inl ValueError_Tolerance)
       \<and> (get_lat_and_lng fl g addr q = Inl ValueError_Tolerance
            \<longrightarrow> rt < 0 \<and> (\<exists>w s. get_wkt fl addr q = Inr (Some w) \<and> get_osm fl addr q = Inr (Some s)))
       \<and> (0 \<le> rt
            \<longrightarrow> get_lat_and_lng fl g addr q \<noteq> Inl ValueError_Tolerance
              \<and> snd (get_coordinates fl geocoder g address method_name leave_null_values)
                    \<noteq> Inl ValueError_Tolerance
              \<and> snd (get_multiple_method_coordinates fl geocoder g address method_name_vec)
                    \<noteq> Inl ValueError_Tolerance)"
proof -
  let ?g = "\<lparr>allowed_methods = allowed, rel_tol = rt\<rparr>"
  have 1: "init allowed rt = Inr ?g" by (simp add: init_def)
  have 2: "rt < 0 \<and> get_wkt fl addr q = Inr (Some pw) \<and> get_osm fl addr q = Inr (Some po)
            \<longrightarrow> get_lat_and_lng fl ?g addr q = Inl ValueError_Tolerance"
    by (simp add: get_lat_and_lng_def isclose_negative)
  have 3: "get_lat_and_lng fl ?g addr q = Inl ValueError_Tolerance
            \<longrightarrow> rt < 0 \<and> (\<exists>w s. get_wkt fl addr q = Inr (Some w) \<and> get_osm fl addr q = Inr (Some s))"
    using tolerance_error_only [of fl ?g addr q] by simp
  have 4: "0 \<le> rt
            \<longrightarrow> get_lat_and_lng fl ?g addr q \<noteq> Inl ValueError_Tolerance
              \<and> snd (get_coordinates fl geocoder ?g address method_name leave_null_values)
                    \<noteq> Inl ValueError_Tolerance
              \<and> snd (get_multiple_method_coordinates fl geocoder ?g address method_name_vec)
                    \<noteq> Inl ValueError_Tolerance"
    using tolerance_never_reported [of ?g] by simp
  show ?thesis
    by (rule exI [of _ ?g]) (intro conjI 1 2 3 4; simp)
qed

theorem init_never_fails_witness:
  "(\<exists>g. init default_allowed_methods (- 1) = Inr g \<and> rel_tol g = - 1
       \<and> get_lat_and_lng py_float g ''Main St'' (both_response 2) = Inl ValueError_Tolerance)
   \<and> (\<exists>g. init default_allowed_methods 0 = Inr g \<and> rel_tol g = 0
       \<and> get_lat_and_lng py_float g ''Main St'' (both_response 2) \<noteq> Inl ValueError_Tolerance
       \<and> snd (get_coordinates py_float sample_geocoder g (Lst [''a1'', ''a3'']) ''arcgis'' True)
             \<noteq> Inl ValueError_Tolerance
       \<and> snd (get_multiple_method_coordinates py_float sample_geocoder g (Lst [''a1'', ''a3'']) NoNames)
             \<noteq> Inl ValueError_Tolerance)"
proof -
  note neg = init_never_fails
    [where allowed = default_allowed_methods and rt = "- 1" and fl = py_float and addr = "''Main St''"
       and q = "both_response 2" and pw = "Point ''Main St'' 1 2" and po = "Point ''Main St'' 1 2"
       and geocoder = sample_geocoder and address = "Lst [''a1'', ''a3'']" and method_name = "''arcgis''"
       and leave_null_values = True and method_name_vec = NoNames]
  note zero = init_never_fails
    [where allowed = default_allowed_methods and rt = 0 and fl = py_float and addr = "''Main St''"
       and q = "both_response 2" and pw = "Point ''Main St'' 1 2" and po = "Point ''Main St'' 1 2"
       and geocoder = sample_geocoder and address = "Lst [''a1'', ''a3'']" and method_name = "''arcgis''"
       and leave_null_values = True and method_name_vec = NoNames]
  have w: "get_wkt py_float ''Main St'' (both_response 2) = Inr (Some (Point ''Main St'' 1 2))"
    by (rule both_response_wkt)
  have s: "get_osm py_float ''Main St'' (both_response 2) = Inr (Some (Point ''Main St'' 1 2))"
    by (simp add: both_response_osm)
  from neg obtain g1 where g1: "init default_allowed_methods (- 1) = Inr g1" "rel_tol g1 = - 1"
    and e1: "(- 1 :: real) < 0 \<and> get_wkt py_float ''Main St'' (both_response 2) = Inr (Some (Point ''Main St'' 1 2))
          \<and> get_osm py_float ''Main St'' (both_response 2) = Inr (Some (Point ''Main St'' 1 2))
        \<longrightarrow> get_lat_and_lng py_float g1 ''Main St'' (both_response 2) = Inl ValueError_Tolerance"
    by (elim exE conjE)
  have a: "get_lat_and_lng py_float g1 ''Main St'' (both_response 2) = Inl ValueError_Tolerance"
    using e1 w s by simp
  from zero obtain g0 where g0: "init default_allowed_methods 0 = Inr g0" "rel_tol g0 = 0"
    and e0: "(0 :: real) \<le> 0 \<longrightarrow>
        get_lat_and_lng py_float g0 ''Main St'' (both_response 2) \<noteq> Inl ValueError_Tolerance
        \<and> snd (get_coordinates py_float sample_geocoder g0 (Lst [''a1'', ''a3'']) ''arcgis'' True)
             \<noteq> Inl ValueError_Tolerance
        \<and> snd (get_multiple_method_coordinates py_float sample_geocoder g0 (Lst [''a1'', ''a3'']) NoNames)
             \<noteq> Inl ValueError_Tolerance"
    by (elim exE conjE)
  have b: "get_lat_and_lng py_float g0 ''Main St'' (both_response 2) \<noteq> Inl ValueError_Tolerance
        \<and> snd (get_coordinates py_float sample_geocoder g0 (Lst [''a1'', ''a3'']) ''arcgis'' True)
             \<noteq> Inl ValueError_Tolerance
        \<and> snd (get_multiple_method_coordinates py_float sample_geocoder g0 (Lst [''a1'', ''a3'']) NoNames)
             \<noteq> Inl ValueError_Tolerance"
    using e0 by simp
  from g1 a have "\<exists>g. init default_allowed_methods (- 1) = Inr g \<and> rel_tol g = - 1
       \<and> get_lat_and_lng py_float g ''Main St'' (both_response 2) = Inl ValueError_Tolerance"
    by blast
  moreover from g0 b have "\<exists>g. init default_allowed_methods 0 = Inr g \<and> rel_tol g = 0
       \<and> get_lat_and_lng py_float g ''Main St'' (both_response 2) \<noteq> Inl ValueError_Tolerance
       \<and> snd (get_coordinates py_float sample_geocoder g (Lst [''a1'', ''a3'']) ''arcgis'' True)
             \<noteq> Inl ValueError_Tolerance
       \<and> snd (get_multiple_method_coordinates py_float sample_geocoder g (Lst [''a1'', ''a3'']) NoNames)
             \<noteq> Inl ValueError_Tolerance"
    by blast
  ultimately show ?thesis by (rule conjI)
qed

text \<open>
  C4, as stated, fails: the attribute \<^verbatim>\<open>POINT(abc def)\<close> matches the pattern, the token
  \<^verbatim>\<open>abc\<close> is no number, and the extractor raises instead of yielding no candidate.
\<close>

theorem get_wkt_unparseable_token_raises:
  "parse_wtk ''POINT(abc def)'' = Some [(''x'', VStr ''abc''), (''y'', VStr ''def'')]
   \<and> py_float ''abc'' = None
   \<and> get_wkt py_float ''Main St'' \<lparr>wkt = Attr (Some ''POINT(abc def)''), osm = NoAttr\<rparr>
       = Inl (ValueError_Float ''abc'')"
  by (simp add: get_wkt_def parse_wtk_def wkt_pattern_def isspace_def point_of_dict_def
      dict_get_def py_float_def unsigned_float_def digit_of_def)

text \<open>
  C4, amended: for every response whose WKT attribute matches the POINT pattern, the two
  matched tokens are non-empty and are converted with \<^verbatim>\<open>float\<close>, x first, outside any
  error handler. If both convert, the candidate \<open>Point address x y\<close> is produced; if a
  token does not convert, the error of the conversion reaches the caller.
\<close>

theorem get_wkt_matched_tokens:
  assumes "wkt q = Attr (Some s)" and "parse_wtk s = Some d"
  shows "\<exists>tx ty. tx \<noteq> [] \<and> ty \<noteq> [] \<and> d = [(''x'', VStr tx), (''y'', VStr ty)] \<and>
           get_wkt fl addr q =
             (case fl tx of None \<Rightarrow> Inl (ValueError_Float tx)
              | Some fx \<Rightarrow> (case fl ty of None \<Rightarrow> Inl (ValueError_Float ty)
                  | Some fy \<Rightarrow> Inr (Some (Point addr fx fy))))"
proof -
  from parse_wtk_groups [OF assms(2)] obtain tx ty
    where t: "tx \<noteq> []" "ty \<noteq> []" and d: "d = [(''x'', VStr tx), (''y'', VStr ty)]"
    by blast
  have s: "s \<noteq> []"
    using assms(2) by (auto simp: parse_wtk_def wkt_pattern_def)
  have "point_of_dict fl addr d =
          (case fl tx of None \<Rightarrow> Inl (ValueError_Float tx)
           | Some fx \<Rightarrow> (case fl ty of None \<Rightarrow> Inl (ValueError_Float ty)
               | Some fy \<Rightarrow> Inr (Some (Point addr fx fy))))"
    using t by (simp add: d point_of_dict_def dict_get_def split: option.splits)
  then have "get_wkt fl addr q =
          (case fl tx of None \<Rightarrow> Inl (ValueError_Float tx)
           | Some fx \<Rightarrow> (case fl ty of None \<Rightarrow> Inl (ValueError_Float ty)
               | Some fy \<Rightarrow> Inr (Some (Point addr fx fy))))"
    using assms s by (simp add: get_wkt_def d)
  with t d show ?thesis by blast
qed

theorem get_wkt_matched_tokens_witness:
  "\<exists>tx ty. [(''x'', VStr ''1.5''), (''y'', VStr ''x2'')] = [(''x'', VStr tx), (''y'', VStr ty)] \<and>
     get_wkt py_float ''Main St'' \<lparr>wkt = Attr (Some ''POINT(1.5 x2)''), osm = NoAttr\<rparr> =
       (case py_float tx of None \<Rightarrow> Inl (ValueError_Float tx)
        | Some fx \<Rightarrow> (case py_float ty of None \<Rightarrow> Inl (ValueError_Float ty)
            | Some fy \<Rightarrow> Inr (Some (Point ''Main St'' fx fy))))"
proof -
  have m: "parse_wtk ''POINT(1.5 x2)'' = Some [(''x'', VStr ''1.5''), (''y'', VStr ''x2'')]"
    by (simp add: parse_wtk_def wkt_pattern_def isspace_def)
  have a: "wkt \<lparr>wkt = Attr (Some ''POINT(1.5 x2)''), osm = NoAttr\<rparr> = Attr (Some ''POINT(1.5 x2)'')"
    by simp
  from get_wkt_matched_tokens [OF a m, of py_float "''Main St''"] show ?thesis
    by blast
qed

text \<open>
  C9: when the structured mapping holds both keys and one of the two values is falsy
  (zero, \<^verbatim>\<open>None\<close>, \<^verbatim>\<open>False\<close> or the empty string), the structured extraction yields
  no candidate and raises nothing; in particular a coordinate with \<open>x = 0\<close> or
  \<open>y = 0\<close> is treated as absent.
\<close>

theorem get_osm_falsy_value_absent:
  assumes "osm q = Attr (Some d)"
      and "map_of d ''x'' = Some vx" and "map_of d ''y'' = Some vy"
      and "\<not> truthy vx \<or> \<not> truthy vy"
  shows "get_osm fl addr q = Inr None"
  using assms by (auto simp: get_osm_def point_of_dict_def dict_get_def)

theorem get_osm_falsy_value_absent_witness:
  "\<not> truthy (VFloat 0) \<and>
   get_osm py_float ''Greenwich'' \<lparr>wkt = NoAttr, osm = Attr (Some [(''x'', VFloat 0), (''y'', VFloat (103 / 2))])\<rparr>
     = Inr None"
  using get_osm_falsy_value_absent
    [of "\<lparr>wkt = NoAttr, osm = Attr (Some [(''x'', VFloat 0), (''y'', VFloat (103 / 2))])\<rparr>"
        "[(''x'', VFloat 0), (''y'', VFloat (103 / 2))]" "VFloat 0" "VFloat (103 / 2)"
        py_float "''Greenwich''"]
  by simp

text \<open>
  C5: with a tolerance that is not negative, reconciliation is this case split. Both
  candidates present and close on both axes under \<open>|a - b| \<le> rel_tol \<times> max(|a|, |b|)\<close>:
  the WKT candidate. Exactly one candidate present: that candidate. Neither present:
  null, without error.
\<close>

theorem reconcile_case_split:
  assumes "0 \<le> rel_tol g"
  shows "(get_wkt fl addr q = Inr (Some pw) \<and> get_osm fl addr q = Inr (Some po) \<and>
            close_spec (rel_tol g) (p_x pw) (p_x po) \<and> close_spec (rel_tol g) (p_y pw) (p_y po)
            \<longrightarrow> get_lat_and_lng fl g addr q = Inr (Some pw))
       \<and> (get_wkt fl addr q = Inr (Some pw) \<and> get_osm fl addr q = Inr None
            \<longrightarrow> get_lat_and_lng fl g addr q = Inr (Some pw))
       \<and> (get_wkt fl addr q = Inr None \<and> get_osm fl addr q = Inr (Some po)
            \<longrightarrow> get_lat_and_lng fl g addr q = Inr (Some po))
       \<and> (get_wkt fl addr q = Inr None \<and> get_osm fl addr q = Inr None
            \<longrightarrow> get_lat_and_lng fl g addr q = Inr None)"
  using assms by (simp add: get_lat_and_lng_def isclose_double close_spec_double)

theorem reconcile_case_split_witness:
  "get_lat_and_lng py_float default_geo ''Main St'' (both_response (20000000005 / 10000000000))
     = Inr (Some (Point ''Main St'' 1 2))
   \<and> get_lat_and_lng py_float default_geo ''Main St'' \<lparr>wkt = Attr (Some ''POINT(1.0 2.0)''), osm = NoAttr\<rparr>
     = Inr (Some (Point ''Main St'' 1 2))
   \<and> get_lat_and_lng py_float default_geo ''Main St''
        \<lparr>wkt = Attr None, osm = Attr (Some [(''x'', VFloat (- 122084 / 1000)), (''y'', VFloat (37422 / 1000))])\<rparr>
     = Inr (Some (Point ''Main St'' (- 122084 / 1000) (37422 / 1000)))
   \<and> get_lat_and_lng py_float default_geo ''Main St'' \<lparr>wkt = NoAttr, osm = NoAttr\<rparr> = Inr None"
proof -
  have tol: "0 \<le> rel_tol default_geo"
    by (simp add: default_geo_def default_rel_tol_def)
  have c: "close_spec (rel_tol default_geo) 1 1"
          "close_spec (rel_tol default_geo) 2 (20000000005 / 10000000000)"
    by (simp_all add: close_spec_def default_geo_def default_rel_tol_def)
  have "get_lat_and_lng py_float default_geo ''Main St'' (both_response (20000000005 / 10000000000))
     = Inr (Some (Point ''Main St'' 1 2))"
    using reconcile_case_split [OF tol, of py_float "''Main St''" "both_response (20000000005 / 10000000000)"
        "Point ''Main St'' 1 2" "Point ''Main St'' 1 (20000000005 / 10000000000)"] c
    by (simp add: both_response_wkt both_response_osm)
  moreover have "get_lat_and_lng py_float default_geo ''Main St'' \<lparr>wkt = Attr (Some ''POINT(1.0 2.0)''), osm = NoAttr\<rparr>
     = Inr (Some (Point ''Main St'' 1 2))"
    using reconcile_case_split [OF tol, of py_float "''Main St''" "\<lparr>wkt = Attr (Some ''POINT(1.0 2.0)''), osm = NoAttr\<rparr>"
        "Point ''Main St'' 1 2"]
    by (simp add: extract_eval)
  moreover have "get_lat_and_lng py_float default_geo ''Main St''
        \<lparr>wkt = Attr None, osm = Attr (Some [(''x'', VFloat (- 122084 / 1000)), (''y'', VFloat (37422 / 1000))])\<rparr>
     = Inr (Some (Point ''Main St'' (- 122084 / 1000) (37422 / 1000)))"
    using reconcile_case_split [OF tol, of py_float "''Main St''"
        "\<lparr>wkt = Attr None, osm = Attr (Some [(''x'', VFloat (- 122084 / 1000)), (''y'', VFloat (37422 / 1000))])\<rparr>"
        _ "Point ''Main St'' (- 122084 / 1000) (37422 / 1000)"]
    by (simp add: extract_eval)
  moreover have "get_lat_and_lng py_float default_geo ''Main St'' \<lparr>wkt = NoAttr, osm = NoAttr\<rparr> = Inr None"
    using reconcile_case_split [OF tol, of py_float "''Main St''" "\<lparr>wkt = NoAttr, osm = NoAttr\<rparr>"]
    by (simp add: extract_eval)
  ultimately show ?thesis by blast
qed



section \<open>Properties of dispatch\<close>

lemma reconcile_wkt_only: "get_lat_and_lng py_float g a wkt_only = Inr (Some (Point a 1 2))"
  by (simp add: get_lat_and_lng_def wkt_only_def extract_eval)

lemma reconcile_no_candidate: "get_lat_and_lng py_float g a no_candidate = Inr None"
  by (simp add: get_lat_and_lng_def no_candidate_def extract_eval)

lemmas sample_eval = sample_geocoder_def reconcile_wkt_only reconcile_no_candidate
  get_coordinates_def return_value_def

lemma answered_calls_Nil: "answered_calls method [] = []"
  by (simp add: answered_calls_def map_filter_simps)

lemma answered_calls_Cons:
  "answered_calls method (a # as) =
     (case method a of None \<Rightarrow> answered_calls method as | Some res \<Rightarrow> (a, res) # answered_calls method as)"
  by (simp add: answered_calls_def map_filter_simps split: option.splits)

lemma for_addr_collects:
  "for_addr fl g mn method as (ws, acc) = (ws', Inr result) \<Longrightarrow>
   \<exists>collected. result = acc @ collected \<and>
      map Inr collected = map (\<lambda>(a, res). get_lat_and_lng fl g a res) (answered_calls method as)"
proof (induction as arbitrary: ws acc)
  case Nil
  then show ?case by (simp add: answered_calls_Nil)
next
  case (Cons a as)
  show ?case
  proof (cases "method a")
    case None
    with Cons.prems have "for_addr fl g mn method as (ws @ [CouldNotGetData mn], acc) = (ws', Inr result)"
      by simp
    from Cons.IH [OF this] show ?thesis
      using None by (simp add: answered_calls_Cons)
  next
    case (Some res)
    show ?thesis
    proof (cases "get_lat_and_lng fl g a res")
      case (Inl e)
      with Cons.prems Some show ?thesis by simp
    next
      case (Inr r)
      with Cons.prems Some have "for_addr fl g mn method as (ws, acc @ [r]) = (ws', Inr result)"
        by simp
      from Cons.IH [OF this] obtain collected where c: "result = (acc @ [r]) @ collected"
        "map Inr collected = map (\<lambda>(a, res). get_lat_and_lng fl g a res) (answered_calls method as)"
        by blast
      have "result = acc @ (r # collected)" using c(1) by simp
      moreover have "map Inr (r # collected) =
          map (\<lambda>(a, res). get_lat_and_lng fl g a res) (answered_calls method (a # as))"
        using c(2) Some Inr by (simp add: answered_calls_Cons)
      ultimately show ?thesis by blast
    qed
  qed
qed

lemma collected_result:
  assumes "geocoder mn = Some method"
      and "get_coordinates fl geocoder g address mn leave = (ws, Inr r)"
  shows "\<exists>collected.
      map Inr collected = map (\<lambda>(a, res). get_lat_and_lng fl g a res) (answered_calls method (addr_list address))
    \<and> r = return_value (if \<not> leave then filter (\<lambda>v. v \<noteq> None) collected else collected)"
proof (cases address)
  case (Str a)
  show ?thesis
  proof (cases "method a")
    case None
    with assms Str have "r = return_value (if \<not> leave then filter (\<lambda>v. v \<noteq> None) [] else [])"
      by (simp add: get_coordinates_def)
    moreover have "map Inr [] = map (\<lambda>(a, res). get_lat_and_lng fl g a res) (answered_calls method (addr_list address))"
      using None Str by (simp add: addr_list_def answered_calls_Cons answered_calls_Nil)
    ultimately show ?thesis by blast
  next
    case (Some res)
    with assms Str obtain v where v: "get_lat_and_lng fl g a res = Inr v"
      and "r = return_value (if \<not> leave then filter (\<lambda>v. v \<noteq> None) [v] else [v])"
      by (auto simp: get_coordinates_def split: sum.splits)
    moreover have "map Inr [v] = map (\<lambda>(a, res). get_lat_and_lng fl g a res) (answered_calls method (addr_list address))"
      using Some Str v by (simp add: addr_list_def answered_calls_Cons answered_calls_Nil)
    ultimately show ?thesis by blast
  qed
next
  case (Lst as)
  with assms obtain result where f: "for_addr fl g mn method as ([], []) = (ws, Inr result)"
    and r: "r = return_value (if \<not> leave then filter (\<lambda>v. v \<noteq> None) result else result)"
    by (auto simp: get_coordinates_def split: prod.splits sum.splits)
  from for_addr_collects [OF f] have
    "map Inr result = map (\<lambda>(a, res). get_lat_and_lng fl g a res) (answered_calls method (addr_list address))"
    using Lst by (simp add: addr_list_def)
  with r show ?thesis by blast
qed

lemma return_value_convention:
  "(results = [] \<longrightarrow> return_value results = RNone)
   \<and> (\<forall>v. results = [v] \<longrightarrow> return_value results = (case v of None \<Rightarrow> RNone | Some p \<Rightarrow> RPoint p))
   \<and> (1 < length results \<longrightarrow> return_value results = RList results)"
  by (auto simp: return_value_def)

lemmas table_eval = get_multiple_method_coordinates_def requested_def iter_addresses_def
  DataFrame_def read_key_def concat_frames_def dropna_all_def Let_def default_geo_def
  default_allowed_methods_def

text \<open>
  C1: the claim does not hold of the code. With five addresses, the calls for the second
  and the fourth throwing and null retention requested, the result has three positions and
  no null: the handler of a failed call emits the warning and appends nothing.
\<close>

theorem failed_calls_leave_no_null:
  "get_coordinates py_float sample_geocoder default_geo
      (Lst [''a1'', ''a2'', ''a3'', ''a4'', ''a5'']) ''osm'' True
     = ([CouldNotGetData ''osm'', CouldNotGetData ''osm''],
        Inr (RList [Some (Point ''a1'' 1 2), Some (Point ''a3'' 1 2), Some (Point ''a5'' 1 2)]))"
  by (simp add: sample_eval)

text \<open>
  C7: when \<^verbatim>\<open>get_coordinates\<close> returns, its value follows the convention. The results
  are the reconciled results of the calls that returned, in the order of the addresses,
  with the nulls removed unless retention is requested. No result gives null, one result
  gives that result itself, more than one give the list.
\<close>

theorem get_coordinates_return_convention:
  assumes "get_coordinates fl geocoder g address method_name leave_null_values = (ws, Inr r)"
  shows "\<exists>method collected results.
      geocoder method_name = Some method
    \<and> map Inr collected = map (\<lambda>(a, res). get_lat_and_lng fl g a res) (answered_calls method (addr_list address))
    \<and> results = (if leave_null_values then collected else filter (\<lambda>v. v \<noteq> None) collected)
    \<and> (results = [] \<longrightarrow> r = RNone)
    \<and> (\<forall>v. results = [v] \<longrightarrow> r = (case v of None \<Rightarrow> RNone | Some p \<Rightarrow> RPoint p))
    \<and> (1 < length results \<longrightarrow> r = RList results)"
proof -
  from assms obtain meth where m: "geocoder method_name = Some meth"
    by (auto simp: get_coordinates_def split: option.splits)
  from collected_result [OF m assms] obtain collected where
    c: "map Inr collected = map (\<lambda>(a, res). get_lat_and_lng fl g a res) (answered_calls meth (addr_list address))"
    and r: "r = return_value (if \<not> leave_null_values then filter (\<lambda>v. v \<noteq> None) collected else collected)"
    by blast
  define results where "results = (if leave_null_values then collected else filter (\<lambda>v. v \<noteq> None) collected)"
  have r': "r = return_value results"
    using r by (simp add: results_def)
  show ?thesis
    using m c results_def return_value_convention [of results] unfolding r' by blast
qed

theorem get_coordinates_return_convention_witness:
  "\<exists>method collected results.
      sample_geocoder ''arcgis'' = Some method
    \<and> map Inr collected = map (\<lambda>(a, res). get_lat_and_lng py_float default_geo a res)
          (answered_calls method (addr_list (Lst [''a1'', ''a3''])))
    \<and> results = (if False then collected else filter (\<lambda>v. v \<noteq> None) collected)
    \<and> (results = [] \<longrightarrow> RPoint (Point ''a1'' 1 2) = RNone)
    \<and> (\<forall>v. results = [v] \<longrightarrow> RPoint (Point ''a1'' 1 2) = (case v of None \<Rightarrow> RNone | Some p \<Rightarrow> RPoint p))
    \<and> (1 < length results \<longrightarrow> RPoint (Point ''a1'' 1 2) = RList results)"
proof -
  have "get_coordinates py_float sample_geocoder default_geo (Lst [''a1'', ''a3'']) ''arcgis'' False
          = ([], Inr (RPoint (Point ''a1'' 1 2)))"
    by (simp add: sample_eval)
  from get_coordinates_return_convention [OF this] show ?thesis .
qed

section \<open>Properties of the table\<close>

lemma for_method_rejected:
  "m \<notin> set (allowed_methods g) \<Longrightarrow>
   for_method fl geocoder g address (m # rest) (ws, dfs)
     = for_method fl geocoder g address rest (ws @ [MethodNotFound m], dfs)"
  by simp

lemma for_method_outcome_filter:
  "snd (for_method fl geocoder g address ms (ws, dfs))
     = snd (for_method fl geocoder g address (filter (\<lambda>m. m \<in> set (allowed_methods g)) ms) (ws', dfs))"
proof (induction ms arbitrary: ws ws' dfs)
  case Nil
  then show ?case by simp
next
  case (Cons m ms)
  show ?case
  proof (cases "m \<in> set (allowed_methods g)")
    case False
    then show ?thesis
      using Cons.IH [of "ws @ [MethodNotFound m]" dfs ws'] by simp
  next
    case True
    obtain w1 res where gc: "get_coordinates fl geocoder g address m True = (w1, res)"
      by (cases "get_coordinates fl geocoder g address m True")
    show ?thesis
    proof (cases res)
      case (Inl e)
      with True gc show ?thesis by simp
    next
      case (Inr cur)
      show ?thesis
      proof (cases "truthy_coordinates cur")
        case False
        with True gc Inr show ?thesis
          using Cons.IH [of "ws @ w1" dfs "ws' @ w1"] by simp
      next
        case t: True
        show ?thesis
        proof (cases "comprehension (zip (iter_addresses address) (iter_coordinates cur)) []")
          case (Inl e)
          with True gc Inr t show ?thesis by simp
        next
          case d: (Inr data)
          show ?thesis
          proof (cases "DataFrame data m address")
            case (Inl e)
            with True gc Inr t d show ?thesis by simp
          next
            case (Inr df)
            with True gc \<open>res = Inr cur\<close> t d show ?thesis
              using Cons.IH [of "ws @ w1" "dfs @ [df]" "ws' @ w1"] by simp
          qed
        qed
      qed
    qed
  qed
qed

lemma for_method_warnings:
  "for_method fl geocoder g address ms (ws, dfs) = (ws', Inr dfs') \<Longrightarrow>
   set ws \<subseteq> set ws' \<and> (\<forall>m \<in> set ms. m \<notin> set (allowed_methods g) \<longrightarrow> MethodNotFound m \<in> set ws')"
proof (induction ms arbitrary: ws dfs)
  case Nil
  then show ?case by simp
next
  case (Cons m ms)
  show ?case
  proof (cases "m \<in> set (allowed_methods g)")
    case False
    with Cons.prems have "for_method fl geocoder g address ms (ws @ [MethodNotFound m], dfs) = (ws', Inr dfs')"
      by simp
    from Cons.IH [OF this] show ?thesis by auto
  next
    case True
    with Cons.prems obtain w1 dfs1 where
      "for_method fl geocoder g address ms (ws @ w1, dfs1) = (ws', Inr dfs')"
      by (auto split: prod.splits sum.splits if_splits)
    from Cons.IH [OF this] show ?thesis using True by auto
  qed
qed

lemma for_method_frames:
  "for_method fl geocoder g address ms (ws, dfs) = (ws', Inr dfs') \<Longrightarrow>
   \<exists>new. dfs' = dfs @ new \<and>
     (\<forall>df \<in> set new. (\<exists>m \<in> set ms. m \<in> set (allowed_methods g) \<and> index df = [m])
         \<and> address = Lst (columns df) \<and> length (rows df) = 1)"
proof (induction ms arbitrary: ws dfs)
  case Nil
  then show ?case by simp
next
  case (Cons m ms)
  show ?case
  proof (cases "m \<in> set (allowed_methods g)")
    case False
    with Cons.prems have "for_method fl geocoder g address ms (ws @ [MethodNotFound m], dfs) = (ws', Inr dfs')"
      by simp
    from Cons.IH [OF this] show ?thesis by auto
  next
    case True
    from Cons.prems True consider
      (skip) w1 where "for_method fl geocoder g address ms (ws @ w1, dfs) = (ws', Inr dfs')"
    | (row) w1 data df where "DataFrame data m address = Inr df"
        "for_method fl geocoder g address ms (ws @ w1, dfs @ [df]) = (ws', Inr dfs')"
      by (auto split: prod.splits sum.splits if_splits)
    then show ?thesis
    proof cases
      case skip
      from Cons.IH [OF skip] show ?thesis by auto
    next
      case row
      from row(1) have df: "index df = [m]" "address = Lst (columns df)" "length (rows df) = 1"
        by (auto simp: DataFrame_def split: addresses.splits)
      from Cons.IH [OF row(2)] obtain new where new: "dfs' = (dfs @ [df]) @ new"
        "\<forall>df \<in> set new. (\<exists>m \<in> set ms. m \<in> set (allowed_methods g) \<and> index df = [m])
            \<and> address = Lst (columns df) \<and> length (rows df) = 1"
        by blast
      have "dfs' = dfs @ (df # new)" using new(1) by simp
      moreover have "\<forall>d \<in> set (df # new). (\<exists>k \<in> set (m # ms). k \<in> set (allowed_methods g) \<and> index d = [k])
            \<and> address = Lst (columns d) \<and> length (rows d) = 1"
        using new(2) df True by auto
      ultimately show ?thesis by blast
    qed
  qed
qed

lemma kept_rows:
  "length is = length rs \<Longrightarrow> map snd (filter (\<lambda>(i, r). P r) (zip is rs)) = filter P rs"
  by (induction "is" rs rule: list_induct2) auto

lemma kept_labels: "set (map fst (filter Q (zip is rs))) \<subseteq> set is"
  by (auto dest: set_zip_leftD)

lemma concat_same_length:
  "\<forall>df \<in> set dfs. length (index df) = length (rows df) \<Longrightarrow>
   length (concat (map index dfs)) = length (concat (map rows dfs))"
  by (induction dfs) auto

lemma dropna_all_rows:
  assumes "length (index df) = length (rows df)"
  shows "rows (dropna_all df) = filter (\<lambda>r. \<exists>c \<in> set r. c \<noteq> None) (rows df)"
proof -
  have "(\<lambda>r :: cell list. filter (\<lambda>c. c \<noteq> None) r \<noteq> []) = (\<lambda>r. \<exists>c \<in> set r. c \<noteq> None)"
    by (rule ext) (simp add: filter_empty_conv)
  then show ?thesis
    using kept_rows [OF assms, of "\<lambda>r. filter (\<lambda>c. c \<noteq> None) r \<noteq> []"]
    by (simp add: dropna_all_def Let_def)
qed

lemma dropna_all_index: "set (index (dropna_all df)) \<subseteq> set (index df)"
  using kept_labels [of _ "index df" "rows df"] by (simp add: dropna_all_def Let_def)

lemma dropna_all_columns: "columns (dropna_all df) = columns df"
  by (simp add: dropna_all_def Let_def)

text \<open>
  C3, as stated, fails: a table assembled with a row of nulls only (\<^verbatim>\<open>bing\<close>) and a
  column of nulls only (\<^verbatim>\<open>a3\<close>) is returned without the row and with the column.
\<close>

theorem table_keeps_null_column:
  "for_method py_float sample_geocoder default_geo (Lst [''a1'', ''a3'']) [''arcgis'', ''bing''] ([], [])
     = ([], Inr [\<lparr>index = [''arcgis''], columns = [''a1'', ''a3''], rows = [[Some (1, 2), None]]\<rparr>,
                 \<lparr>index = [''bing''], columns = [''a1'', ''a3''], rows = [[None, None]]\<rparr>])
   \<and> get_multiple_method_coordinates py_float sample_geocoder default_geo
        (Lst [''a1'', ''a3'']) (Names [''arcgis'', ''bing''])
     = ([], Inr (Some \<lparr>index = [''arcgis''], columns = [''a1'', ''a3''], rows = [[Some (1, 2), None]]\<rparr>))"
  by (simp add: sample_eval table_eval)

text \<open>
  C3, amended: after all providers are processed, the rows that consist of nulls only are
  dropped and every other row is kept, in order. Columns are never dropped: the returned
  table has one column per input address, whether or not all its cells are null.
\<close>

theorem table_drops_null_rows_only:
  assumes "get_multiple_method_coordinates fl geocoder g address method_name_vec = (ws, Inr (Some t))"
  shows "\<exists>df_vec. for_method fl geocoder g address (requested g method_name_vec) ([], []) = (ws, Inr df_vec)
      \<and> rows t = filter (\<lambda>r. \<exists>c \<in> set r. c \<noteq> None) (concat (map rows df_vec))
      \<and> address = Lst (columns t)"
proof -
  from assms obtain df_vec where
    f: "for_method fl geocoder g address (requested g method_name_vec) ([], []) = (ws, Inr df_vec)"
    and ne: "df_vec \<noteq> []" and t: "t = dropna_all (concat_frames df_vec)"
    by (auto simp: get_multiple_method_coordinates_def split: prod.splits sum.splits if_splits)
  from for_method_frames [OF f] have fr:
    "\<forall>df \<in> set df_vec. address = Lst (columns df) \<and> length (rows df) = 1 \<and> length (index df) = 1"
    by auto
  then have "length (index (concat_frames df_vec)) = length (rows (concat_frames df_vec))"
    using concat_same_length [of df_vec] by (simp add: concat_frames_def)
  from dropna_all_rows [OF this]
  have "rows t = filter (\<lambda>r. \<exists>c \<in> set r. c \<noteq> None) (concat (map rows df_vec))"
    by (simp add: t concat_frames_def)
  moreover have "address = Lst (columns t)"
    using fr ne by (cases df_vec) (auto simp: t dropna_all_columns concat_frames_def)
  ultimately show ?thesis using f by blast
qed

theorem table_drops_null_rows_only_witness:
  "\<exists>df_vec. for_method py_float sample_geocoder default_geo (Lst [''a1'', ''a3''])
        (requested default_geo (Names [''arcgis'', ''bing''])) ([], []) = ([], Inr df_vec)
      \<and> rows \<lparr>index = [''arcgis''], columns = [''a1'', ''a3''], rows = [[Some (1, 2), None]]\<rparr>
          = filter (\<lambda>r. \<exists>c \<in> set r. c \<noteq> None) (concat (map rows df_vec))
      \<and> Lst [''a1'', ''a3'']
          = Lst (columns \<lparr>index = [''arcgis''], columns = [''a1'', ''a3''], rows = [[Some (1, 2), None]]\<rparr>)"
proof -
  have "get_multiple_method_coordinates py_float sample_geocoder default_geo
        (Lst [''a1'', ''a3'']) (Names [''arcgis'', ''bing''])
     = ([], Inr (Some \<lparr>index = [''arcgis''], columns = [''a1'', ''a3''], rows = [[Some (1, 2), None]]\<rparr>))"
    by (simp add: sample_eval table_eval)
  from table_drops_null_rows_only [OF this] show ?thesis .
qed

lemma for_method_trace:
  "for_method fl geocoder g address ms (ws, dfs) = (ws', Inr dfs') \<Longrightarrow>
   ws' = ws @ concat (map (warnings_of fl geocoder g address) ms)
   \<and> concat (map index dfs') = concat (map index dfs) @ filter (contributes fl geocoder g address) ms
   \<and> length dfs' = length dfs + length (filter (contributes fl geocoder g address) ms)"
proof (induction ms arbitrary: ws dfs)
  case Nil
  then show ?case by simp
next
  case (Cons m ms)
  show ?case
  proof (cases "m \<in> set (allowed_methods g)")
    case False
    with Cons.prems have "for_method fl geocoder g address ms (ws @ [MethodNotFound m], dfs) = (ws', Inr dfs')"
      by simp
    from Cons.IH [OF this] False show ?thesis
      by (simp add: contributes_def warnings_of_def)
  next
    case True
    obtain w1 res where gc: "get_coordinates fl geocoder g address m True = (w1, res)"
      by (cases "get_coordinates fl geocoder g address m True")
    show ?thesis
    proof (cases res)
      case (Inl e)
      with True gc Cons.prems show ?thesis by simp
    next
      case (Inr cur)
      show ?thesis
      proof (cases "truthy_coordinates cur")
        case False
        with True gc Inr Cons.prems have "for_method fl geocoder g address ms (ws @ w1, dfs) = (ws', Inr dfs')"
          by simp
        from Cons.IH [OF this] True gc Inr False show ?thesis
          by (simp add: contributes_def warnings_of_def)
      next
        case t: True
        show ?thesis
        proof (cases "comprehension (zip (iter_addresses address) (iter_coordinates cur)) []")
          case (Inl e)
          with True gc Inr t Cons.prems show ?thesis by simp
        next
          case d: (Inr data)
          show ?thesis
          proof (cases "DataFrame data m address")
            case (Inl e)
            with True gc Inr t d Cons.prems show ?thesis by simp
          next
            case (Inr df)
            then have i: "index df = [m]"
              by (auto simp: DataFrame_def split: addresses.splits)
            from True gc \<open>res = Inr cur\<close> t d Inr Cons.prems
            have "for_method fl geocoder g address ms (ws @ w1, dfs @ [df]) = (ws', Inr dfs')"
              by simp
            from Cons.IH [OF this] True gc \<open>res = Inr cur\<close> t i show ?thesis
              by (simp add: contributes_def warnings_of_def)
          qed
        qed
      qed
    qed
  qed
qed

text \<open>
  C8, as stated, fails in its last part: for two addresses and a provider that finds
  nothing, the dispatch returns the list of two nulls, which is truthy; a row of nulls is
  added and then dropped, and the call returns a table without rows, not null.
\<close>

theorem table_without_rows_not_null:
  "get_multiple_method_coordinates py_float sample_geocoder default_geo
        (Lst [''a1'', ''a3'']) (Names [''bing''])
     = ([], Inr (Some \<lparr>index = [], columns = [''a1'', ''a3''], rows = []\<rparr>))"
  by (simp add: sample_eval table_eval)

text \<open>
  C8, amended: a requested name outside the allow-list emits the warning that names it,
  adds no row, and the loop goes on with the remaining names; the outcome of the loop is
  that of the loop over the allowed names alone. When the call returns, its warnings are
  those of the requested names in order (for a rejected name the warning that names it,
  for an allowed name the warnings of its dispatch), and the frames it assembled are
  labelled by exactly the requested names that are allowed and whose dispatch returned a
  truthy result, in order. The call returns null exactly when there is no such name;
  otherwise it returns a table, which has no rows when every assembled row consists of
  nulls only.
\<close>

theorem rejected_method_warned_and_skipped:
  "(m \<notin> set (allowed_methods g) \<longrightarrow>
      for_method fl geocoder g address (m # rest) (ws0, dfs)
        = for_method fl geocoder g address rest (ws0 @ [MethodNotFound m], dfs))
   \<and> snd (for_method fl geocoder g address ms (ws0, dfs))
       = snd (for_method fl geocoder g address (filter (\<lambda>n. n \<in> set (allowed_methods g)) ms) (ws0, dfs))
   \<and> (get_multiple_method_coordinates fl geocoder g address v = (ws, Inr r) \<longrightarrow>
        (\<forall>n \<in> set (requested g v). n \<notin> set (allowed_methods g) \<longrightarrow> MethodNotFound n \<in> set ws)
        \<and> ws = concat (map (warnings_of fl geocoder g address) (requested g v))
        \<and> (\<exists>df_vec. for_method fl geocoder g address (requested g v) ([], []) = (ws, Inr df_vec)
              \<and> concat (map index df_vec) = filter (contributes fl geocoder g address) (requested g v)
              \<and> r = (if df_vec = [] then None else Some (dropna_all (concat_frames df_vec))))
        \<and> (r = None) = (filter (contributes fl geocoder g address) (requested g v) = [])
        \<and> (\<forall>t. r = Some t \<longrightarrow> set (index t) \<subseteq> set (requested g v) \<inter> set (allowed_methods g)))"
proof -
  have step: "m \<notin> set (allowed_methods g) \<longrightarrow>
      for_method fl geocoder g address (m # rest) (ws0, dfs)
        = for_method fl geocoder g address rest (ws0 @ [MethodNotFound m], dfs)"
    by simp
  have whole: "get_multiple_method_coordinates fl geocoder g address v = (ws, Inr r) \<longrightarrow>
        (\<forall>n \<in> set (requested g v). n \<notin> set (allowed_methods g) \<longrightarrow> MethodNotFound n \<in> set ws)
        \<and> ws = concat (map (warnings_of fl geocoder g address) (requested g v))
        \<and> (\<exists>df_vec. for_method fl geocoder g address (requested g v) ([], []) = (ws, Inr df_vec)
              \<and> concat (map index df_vec) = filter (contributes fl geocoder g address) (requested g v)
              \<and> r = (if df_vec = [] then None else Some (dropna_all (concat_frames df_vec))))
        \<and> (r = None) = (filter (contributes fl geocoder g address) (requested g v) = [])
        \<and> (\<forall>t. r = Some t \<longrightarrow> set (index t) \<subseteq> set (requested g v) \<inter> set (allowed_methods g))"
  proof
    assume a: "get_multiple_method_coordinates fl geocoder g address v = (ws, Inr r)"
    then obtain df_vec where
      f: "for_method fl geocoder g address (requested g v) ([], []) = (ws, Inr df_vec)"
      and r: "r = (if df_vec = [] then None else Some (dropna_all (concat_frames df_vec)))"
      by (auto simp: get_multiple_method_coordinates_def split: prod.splits sum.splits)
    from for_method_trace [OF f] have
      tw: "ws = concat (map (warnings_of fl geocoder g address) (requested g v))"
      and ti: "concat (map index df_vec) = filter (contributes fl geocoder g address) (requested g v)"
      and tl: "length df_vec = length (filter (contributes fl geocoder g address) (requested g v))"
      by simp_all
    have none: "(r = None) = (filter (contributes fl geocoder g address) (requested g v) = [])"
    proof -
      have "(r = None) = (df_vec = [])" using r by simp
      also have "\<dots> = (filter (contributes fl geocoder g address) (requested g v) = [])"
        using tl by (metis length_0_conv)
      finally show ?thesis .
    qed
    have labels: "set (concat (map index df_vec)) \<subseteq> set (requested g v) \<inter> set (allowed_methods g)"
      unfolding ti by (auto simp: contributes_def)
    have sub: "set (index t) \<subseteq> set (requested g v) \<inter> set (allowed_methods g)" if "r = Some t" for t
    proof -
      from that r have "t = dropna_all (concat_frames df_vec)"
        by (simp split: if_splits)
      then have "set (index t) \<subseteq> set (concat (map index df_vec))"
        using dropna_all_index [of "concat_frames df_vec"] by (simp add: concat_frames_def)
      with labels show ?thesis by blast
    qed
    have ex: "\<exists>df_vec. for_method fl geocoder g address (requested g v) ([], []) = (ws, Inr df_vec)
              \<and> concat (map index df_vec) = filter (contributes fl geocoder g address) (requested g v)
              \<and> r = (if df_vec = [] then None else Some (dropna_all (concat_frames df_vec)))"
      using f ti r by blast
    have warn: "\<forall>n \<in> set (requested g v). n \<notin> set (allowed_methods g) \<longrightarrow> MethodNotFound n \<in> set ws"
      using for_method_warnings [OF f] by blast
    show "(\<forall>n \<in> set (requested g v). n \<notin> set (allowed_methods g) \<longrightarrow> MethodNotFound n \<in> set ws)
        \<and> ws = concat (map (warnings_of fl geocoder g address) (requested g v))
        \<and> (\<exists>df_vec. for_method fl geocoder g address (requested g v) ([], []) = (ws, Inr df_vec)
              \<and> concat (map index df_vec) = filter (contributes fl geocoder g address) (requested g v)
              \<and> r = (if df_vec = [] then None else Some (dropna_all (concat_frames df_vec))))
        \<and> (r = None) = (filter (contributes fl geocoder g address) (requested g v) = [])
        \<and> (\<forall>t. r = Some t \<longrightarrow> set (index t) \<subseteq> set (requested g v) \<inter> set (allowed_methods g))"
      using warn tw ex none sub by (intro conjI allI impI) assumption+
  qed
  have filt: "snd (for_method fl geocoder g address ms (ws0, dfs))
       = snd (for_method fl geocoder g address (filter (\<lambda>n. n \<in> set (allowed_methods g)) ms) (ws0, dfs))"
    by (rule for_method_outcome_filter)
  show ?thesis
    by (intro conjI step filt whole)
qed

theorem rejected_method_warned_and_skipped_witness:
  "for_method py_float sample_geocoder default_geo (Lst [''a1'', ''a3'']) [''nope'', ''arcgis''] ([], [])
     = for_method py_float sample_geocoder default_geo (Lst [''a1'', ''a3'']) [''arcgis''] ([MethodNotFound ''nope''], [])
   \<and> MethodNotFound ''nope'' \<in> set [MethodNotFound ''nope'']
   \<and> [MethodNotFound ''nope'']
        = concat (map (warnings_of py_float sample_geocoder default_geo (Lst [''a1'', ''a3'']))
                      (requested default_geo (Names [''nope'', ''arcgis''])))
   \<and> set (index \<lparr>index = [''arcgis''], columns = [''a1'', ''a3''], rows = [[Some (1, 2), None]]\<rparr>)
        \<subseteq> set (requested default_geo (Names [''nope'', ''arcgis''])) \<inter> set (allowed_methods default_geo)
   \<and> filter (contributes py_float sample_geocoder default_geo (Lst [''a1'', ''a3'']))
         (requested default_geo (Names [''nope''])) = []
   \<and> filter (contributes py_float sample_geocoder default_geo (Lst [''a1'', ''a3'']))
         (requested default_geo (Names [''bing''])) \<noteq> []"
proof -
  let ?t = "\<lparr>index = [''arcgis''], columns = [''a1'', ''a3''], rows = [[Some (1, 2), None]]\<rparr>"
  let ?e = "\<lparr>index = [], columns = [''a1'', ''a3''], rows = []\<rparr> :: frame"
  let ?C = "contributes py_float sample_geocoder default_geo (Lst [''a1'', ''a3''])"
  have rej: "''nope'' \<notin> set (allowed_methods default_geo)"
    by (simp add: default_geo_def default_allowed_methods_def)
  have req: "''nope'' \<in> set (requested default_geo (Names [''nope'', ''arcgis'']))"
    by (simp add: requested_def)
  have tab: "get_multiple_method_coordinates py_float sample_geocoder default_geo
        (Lst [''a1'', ''a3'']) (Names [''nope'', ''arcgis''])
     = ([MethodNotFound ''nope''], Inr (Some ?t))"
    by (simp add: sample_eval table_eval)
  have emp: "get_multiple_method_coordinates py_float sample_geocoder default_geo
        (Lst [''a1'', ''a3'']) (Names [''nope'']) = ([MethodNotFound ''nope''], Inr None)"
    by (simp add: table_eval)
  have nul: "get_multiple_method_coordinates py_float sample_geocoder default_geo
        (Lst [''a1'', ''a3'']) (Names [''bing'']) = ([], Inr (Some ?e))"
    by (simp add: sample_eval table_eval)
  note a = rejected_method_warned_and_skipped
    [where m = "''nope''" and g = default_geo and fl = py_float and geocoder = sample_geocoder
       and address = "Lst [''a1'', ''a3'']" and rest = "[''arcgis'']" and ?ws0.0 = "[]" and dfs = "[]"
       and ms = "[]" and v = "Names [''nope'', ''arcgis'']" and ws = "[MethodNotFound ''nope'']"
       and r = "Some ?t"]
  note b = rejected_method_warned_and_skipped
    [where m = "''nope''" and g = default_geo and fl = py_float and geocoder = sample_geocoder
       and address = "Lst [''a1'', ''a3'']" and rest = "[]" and ?ws0.0 = "[]" and dfs = "[]"
       and ms = "[]" and v = "Names [''nope'']" and ws = "[MethodNotFound ''nope'']"
       and r = None]
  note c = rejected_method_warned_and_skipped
    [where m = "''nope''" and g = default_geo and fl = py_float and geocoder = sample_geocoder
       and address = "Lst [''a1'', ''a3'']" and rest = "[]" and ?ws0.0 = "[]" and dfs = "[]"
       and ms = "[]" and v = "Names [''bing'']" and ws = "[]"
       and r = "Some ?e"]
  have step: "for_method py_float sample_geocoder default_geo (Lst [''a1'', ''a3'']) [''nope'', ''arcgis''] ([], [])
     = for_method py_float sample_geocoder default_geo (Lst [''a1'', ''a3'']) [''arcgis''] ([] @ [MethodNotFound ''nope''], [])"
    by (rule a [THEN conjunct1, THEN mp, OF rej])
  then have step': "for_method py_float sample_geocoder default_geo (Lst [''a1'', ''a3'']) [''nope'', ''arcgis''] ([], [])
     = for_method py_float sample_geocoder default_geo (Lst [''a1'', ''a3'']) [''arcgis''] ([MethodNotFound ''nope''], [])"
    by (simp only: append_Nil)
  note wa = a [THEN conjunct2, THEN conjunct2, THEN mp, OF tab]
  note wb = b [THEN conjunct2, THEN conjunct2, THEN mp, OF emp]
  note wc = c [THEN conjunct2, THEN conjunct2, THEN mp, OF nul]
  have warned: "MethodNotFound ''nope'' \<in> set [MethodNotFound ''nope'']"
    using wa [THEN conjunct1, THEN bspec, OF req] rej by (rule mp)
  have trace: "[MethodNotFound ''nope'']
        = concat (map (warnings_of py_float sample_geocoder default_geo (Lst [''a1'', ''a3'']))
                      (requested default_geo (Names [''nope'', ''arcgis''])))"
    by (rule wa [THEN conjunct2, THEN conjunct1])
  have labels: "set (index ?t) \<subseteq> set (requested default_geo (Names [''nope'', ''arcgis'']))
                              \<inter> set (allowed_methods default_geo)"
    using wa [THEN conjunct2, THEN conjunct2, THEN conjunct2, THEN conjunct2, THEN spec, of ?t]
    by (rule mp) (rule refl)
  have none: "filter ?C (requested default_geo (Names [''nope''])) = []"
    using wb [THEN conjunct2, THEN conjunct2, THEN conjunct2, THEN conjunct1] by simp
  have some: "filter ?C (requested default_geo (Names [''bing''])) \<noteq> []"
    using wc [THEN conjunct2, THEN conjunct2, THEN conjunct2, THEN conjunct1] by simp
  show ?thesis
    by (intro conjI step' warned trace labels none some)
qed

lemma get_lat_and_lng_address:
  "get_lat_and_lng fl g addr q = Inr (Some p) \<Longrightarrow> p_address p = addr"
  by (auto simp: get_lat_and_lng_def dest: get_wkt_address get_osm_address
      split: sum.splits option.splits if_splits)

lemma get_coordinates_Str_cases:
  assumes "get_coordinates fl geocoder g (Str a) m lv = (w, Inr cur)"
  shows "cur = RNone \<or> (\<exists>p. cur = RPoint p \<and> p_address p = a)"
proof -
  from assms obtain meth where m: "geocoder m = Some meth"
    by (auto simp: get_coordinates_def split: option.splits)
  show ?thesis
  proof (cases "meth a")
    case None
    with assms m show ?thesis
      by (auto simp: get_coordinates_def return_value_def)
  next
    case (Some res)
    with assms m obtain v where v: "get_lat_and_lng fl g a res = Inr v"
      and cur: "cur = return_value (if \<not> lv then filter (\<lambda>r. r \<noteq> None) [v] else [v])"
      by (auto simp: get_coordinates_def split: sum.splits)
    show ?thesis
    proof (cases v)
      case None
      with cur show ?thesis by (simp add: return_value_def)
    next
      case (Some p)
      with v have "p_address p = a" by (simp add: get_lat_and_lng_address)
      with cur Some show ?thesis by (simp add: return_value_def)
    qed
  qed
qed

lemma comprehension_Str_point:
  "a \<noteq> [] \<Longrightarrow> p_address p = a \<Longrightarrow>
   comprehension (zip (iter_addresses (Str a)) (iter_coordinates (RPoint p))) [] = Inl (AttributeError ''x'')"
  by (cases a) (simp_all add: iter_addresses_def)

lemma for_method_Str_raises:
  assumes "a \<noteq> []" and "m \<in> set (allowed_methods g)"
      and "get_coordinates fl geocoder g (Str a) m True = (w, Inr (RPoint p))"
  shows "m \<in> set ms \<Longrightarrow> \<exists>ws' e. for_method fl geocoder g (Str a) ms (ws, dfs) = (ws', Inl e)"
proof (induction ms arbitrary: ws dfs)
  case Nil
  then show ?case by simp
next
  case (Cons n ms)
  show ?case
  proof (cases "n \<in> set (allowed_methods g)")
    case False
    with Cons.prems assms(2) have "m \<in> set ms" by auto
    from Cons.IH [OF this] False show ?thesis by simp
  next
    case True
    obtain w1 res where gc: "get_coordinates fl geocoder g (Str a) n True = (w1, res)"
      by (cases "get_coordinates fl geocoder g (Str a) n True")
    show ?thesis
    proof (cases res)
      case (Inl e)
      with True gc show ?thesis by simp
    next
      case (Inr cur)
      from get_coordinates_Str_cases [OF gc [unfolded Inr]]
      show ?thesis
      proof
        assume none: "cur = RNone"
        with gc Inr assms(3) have "n \<noteq> m" by auto
        with Cons.prems have "m \<in> set ms" by auto
        from Cons.IH [OF this] True gc Inr none show ?thesis by simp
      next
        assume "\<exists>q. cur = RPoint q \<and> p_address q = a"
        then obtain q where q: "cur = RPoint q" "p_address q = a" by blast
        from comprehension_Str_point [OF assms(1) q(2)] True gc Inr q(1)
        show ?thesis by simp
      qed
    qed
  qed
qed

text \<open>
  C10: with a single non-empty address string (in particular one longer than one
  character), if some requested and allowed provider yields a point for it, the call
  raises. The string is zipped character by character with the three fields of the point,
  and the first field, the address itself, is a truthy string without attribute
  \<^verbatim>\<open>x\<close>.
\<close>

theorem single_string_address_raises:
  assumes "a \<noteq> []" and "m \<in> set (requested g v)" and "m \<in> set (allowed_methods g)"
      and "get_coordinates fl geocoder g (Str a) m True = (w, Inr (RPoint p))"
  shows "(\<exists>ws e. get_multiple_method_coordinates fl geocoder g (Str a) v = (ws, Inl e))
       \<and> comprehension (zip (iter_addresses (Str a)) (iter_coordinates (RPoint p))) []
           = Inl (AttributeError ''x'')"
proof -
  from for_method_Str_raises [OF assms(1) assms(3) assms(4) assms(2), of "[]" "[]"]
  have "\<exists>ws e. get_multiple_method_coordinates fl geocoder g (Str a) v = (ws, Inl e)"
    by (auto simp: get_multiple_method_coordinates_def)
  moreover from get_coordinates_Str_cases [OF assms(4)] have "p_address p = a"
    by simp
  ultimately show ?thesis
    using comprehension_Str_point [OF assms(1)] by blast
qed

theorem single_string_address_raises_witness:
  "(\<exists>ws e. get_multiple_method_coordinates py_float sample_geocoder default_geo (Str ''ab'') (Names [''osm''])
       = (ws, Inl e))
   \<and> comprehension (zip (iter_addresses (Str ''ab'')) (iter_coordinates (RPoint (Point ''ab'' 1 2)))) []
       = Inl (AttributeError ''x'')"
proof -
  have 1: "''ab'' \<noteq> []" by simp
  have 2: "''osm'' \<in> set (requested default_geo (Names [''osm'']))"
    by (simp add: requested_def)
  have 3: "''osm'' \<in> set (allowed_methods default_geo)"
    by (simp add: default_geo_def default_allowed_methods_def)
  have 4: "get_coordinates py_float sample_geocoder default_geo (Str ''ab'') ''osm'' True
             = ([], Inr (RPoint (Point ''ab'' 1 2)))"
    by (simp add: sample_eval)
  from single_string_address_raises [OF 1 2 3 4] show ?thesis .
qed

end
